theory Spec2Isabelle
  imports Main
begin

section \<open>JavaScript values and string primitives\<close>

text \<open>
  The controllers and the editor work on JavaScript strings, arrays and plain objects.
  A string is a list of code units (\<^typ>\<open>string\<close>); every string the editor
  inserts is ASCII. A value that arrives as JSON is a \<open>jsval\<close>; an object keeps its
  properties as an association list in insertion order. Numbers are the integers (the
  payloads carry issue numbers only).
\<close>

datatype jsval =
    JUndefined
  | JNull
  | JBool bool
  | JNum int
  | JStr string
  | JArr "jsval list"
  | JObj "(string \<times> jsval) list"

text \<open>A thrown exception is a value. Every exception that the modelled code itself can
  raise is a \<open>TypeError\<close>: reading a property of \<open>undefined\<close> or \<open>null\<close>, or calling a method
  that the value does not have.\<close>

datatype js_error = TypeError

text \<open>\<open>ToBoolean\<close>: what \<open>if (v)\<close>, \<open>v ? a : b\<close> and \<open>v || d\<close> test.\<close>

fun truthy :: "jsval \<Rightarrow> bool" where
  "truthy JUndefined = False"
| "truthy JNull = False"
| "truthy (JBool b) = b"
| "truthy (JNum n) = (n \<noteq> 0)"
| "truthy (JStr s) = (s \<noteq> [])"
| "truthy (JArr xs) = True"
| "truthy (JObj kvs) = True"

text \<open>\<open>Array.prototype.join\<close> on strings.\<close>

fun join_str :: "string \<Rightarrow> string list \<Rightarrow> string" where
  "join_str sep [] = []"
| "join_str sep [x] = x"
| "join_str sep (x # y # ys) = x @ sep @ join_str sep (y # ys)"

text \<open>\<open>String.prototype.split\<close> with a one-character separator: the empty string splits
  into one empty piece, and a trailing separator leaves an empty last piece.\<close>

fun split_str :: "char \<Rightarrow> string \<Rightarrow> string list" where
  "split_str c [] = [[]]"
| "split_str c (x # xs) =
     (if x = c then [] # split_str c xs
      else (case split_str c xs of
              [] \<Rightarrow> [[x]]
            | l # ls \<Rightarrow> (x # l) # ls))"

text \<open>\<open>String.prototype.startsWith\<close>.\<close>

definition startsWith :: "string \<Rightarrow> string \<Rightarrow> bool" where
  "startsWith s p = (take (length p) s = p)"

text \<open>\<open>String.prototype.substring(a, b)\<close>: both arguments are clamped to
  \<open>[0, length]\<close> and swapped when \<open>a > b\<close>; \<open>substring(a)\<close> runs to the end.\<close>

definition substring :: "string \<Rightarrow> int \<Rightarrow> int \<Rightarrow> string" where
  "substring s a b =
     (let n = int (length s);
          a' = min (max a 0) n;
          b' = min (max b 0) n;
          lo = min a' b';
          hi = max a' b'
      in take (nat (hi - lo)) (drop (nat lo) s))"

definition substring_from :: "string \<Rightarrow> int \<Rightarrow> string" where
  "substring_from s a = substring s a (int (length s))"

text \<open>\<open>String.prototype.lastIndexOf(c, pos)\<close> for a one-character search string: the
  largest index \<open>k \<le> max pos 0\<close> holding \<open>c\<close>, scanning backwards, or \<open>-1\<close>. A negative
  \<open>pos\<close> is treated as \<open>0\<close>, so index \<open>0\<close> is still examined.\<close>

fun lastIndexOf_upto :: "string \<Rightarrow> char \<Rightarrow> nat \<Rightarrow> int" where
  "lastIndexOf_upto s c 0 = (if s \<noteq> [] \<and> hd s = c then 0 else - 1)"
| "lastIndexOf_upto s c (Suc k) =
     (if Suc k < length s \<and> s ! Suc k = c then int (Suc k)
      else lastIndexOf_upto s c k)"

definition lastIndexOf :: "string \<Rightarrow> char \<Rightarrow> int \<Rightarrow> int" where
  "lastIndexOf s c pos = lastIndexOf_upto s c (nat (max pos 0))"

section \<open>SectionPlanner: \<open>buildSectionsList\<close> (issueController.js)\<close>

text \<open>The section titles carry emoji; they are kept as the UTF-8 bytes of the source
  file.\<close>

definition emoji_pushpin :: string where
  "emoji_pushpin = [CHR 0xF0, CHR 0x9F, CHR 0x93, CHR 0x8C]"
definition emoji_memo :: string where
  "emoji_memo = [CHR 0xF0, CHR 0x9F, CHR 0x93, CHR 0x9D]"
definition emoji_link :: string where
  "emoji_link = [CHR 0xF0, CHR 0x9F, CHR 0x94, CHR 0x97]"
definition emoji_tools :: string where
  "emoji_tools = [CHR 0xF0, CHR 0x9F, CHR 0x9B, CHR 0xA0, CHR 0xEF, CHR 0xB8, CHR 0x8F]"
definition emoji_check :: string where
  "emoji_check = [CHR 0xE2, CHR 0x9C, CHR 0x85]"
definition emoji_warning :: string where
  "emoji_warning = [CHR 0xE2, CHR 0x9A, CHR 0xA0, CHR 0xEF, CHR 0xB8, CHR 0x8F]"
definition emoji_test_tube :: string where
  "emoji_test_tube = [CHR 0xF0, CHR 0x9F, CHR 0xA7, CHR 0xAA]"
definition emoji_camera :: string where
  "emoji_camera = [CHR 0xF0, CHR 0x9F, CHR 0x93, CHR 0xB8]"
definition emoji_speech :: string where
  "emoji_speech = [CHR 0xF0, CHR 0x9F, CHR 0x92, CHR 0xAC]"

text \<open>The nine section lines, named after the sections of the rule table.\<close>

definition sec_description :: string where
  "sec_description = ''- ## '' @ emoji_pushpin @ '' Description''"
definition sec_summary :: string where
  "sec_summary = ''- ## '' @ emoji_memo
     @ '' Summary (a concise overview of what this PR achieves)''"
definition sec_related :: "string option \<Rightarrow> string" where
  "sec_related prLink = ''- ## '' @ emoji_link @ '' Related Issue (''
     @ (case prLink of
          None \<Rightarrow> ''placeholder like #issue-number''
        | Some l \<Rightarrow> (if l \<noteq> [] then ''Relates to '' @ l
                     else ''placeholder like #issue-number''))
     @ '')''"
definition sec_type_of_change :: string where
  "sec_type_of_change = ''- ## '' @ emoji_tools
     @ '' Type of Change (include options like Bug fix, New feature, etc. with [x] for the relevant one)''"
definition sec_checklist :: string where
  "sec_checklist = ''- ## '' @ emoji_check @ '' Checklist''"
definition sec_breaking :: string where
  "sec_breaking = ''- ## '' @ emoji_warning
     @ '' Breaking Changes (list any breaking changes; if none, state ''
     @ [CHR 0x22] @ ''No breaking changes'' @ [CHR 0x22] @ '')''"
definition sec_testing :: string where
  "sec_testing = ''- ## '' @ emoji_test_tube @ '' Testing Details''"
definition sec_screenshots :: string where
  "sec_screenshots = ''- ## '' @ emoji_camera @ '' Screenshots (if applicable)''"
definition sec_notes :: string where
  "sec_notes = ''- ## '' @ emoji_speech @ '' Additional Notes''"

lemmas emoji_defs = emoji_pushpin_def emoji_memo_def emoji_link_def emoji_tools_def
  emoji_check_def emoji_warning_def emoji_test_tube_def emoji_camera_def emoji_speech_def

lemmas sec_lines_defs = sec_description_def sec_summary_def sec_related_def
  sec_type_of_change_def sec_checklist_def sec_breaking_def sec_testing_def
  sec_screenshots_def sec_notes_def

text \<open>The object literal \<open>defaults\<close>.\<close>

definition defaults :: "string \<rightharpoonup> jsval" where
  "defaults =
     [''includeSummary'' \<mapsto> JBool True,
      ''includeChecklist'' \<mapsto> JBool True,
      ''includeBreakingChanges'' \<mapsto> JBool True,
      ''includeScreenshots'' \<mapsto> JBool True,
      ''includeLinkedIssues'' \<mapsto> JBool True]"

text \<open>\<open>{ ...defaults, ...settings }\<close>: every own property of \<open>settings\<close> replaces the
  default of the same key, whatever its value; spreading \<open>undefined\<close> (no settings at all,
  \<open>None\<close>) copies nothing.\<close>

definition spread_settings :: "(string \<rightharpoonup> jsval) option \<Rightarrow> (string \<rightharpoonup> jsval)" where
  "spread_settings settings =
     defaults ++ (case settings of None \<Rightarrow> Map.empty | Some m \<Rightarrow> m)"

text \<open>Reading a property: an absent key reads as \<open>undefined\<close>.\<close>

definition get_prop :: "(string \<rightharpoonup> jsval) \<Rightarrow> string \<Rightarrow> jsval" where
  "get_prop obj k = (case obj k of None \<Rightarrow> JUndefined | Some v \<Rightarrow> v)"

text \<open>The array \<open>sectionEntries\<close> after the last \<open>push\<close>. \<open>prLink\<close> is \<open>None\<close> when the
  request carries none; the empty string is falsy as well.\<close>

definition sectionEntries :: "string option \<Rightarrow> (string \<rightharpoonup> jsval) option \<Rightarrow> string list" where
  "sectionEntries prLink settings =
     (let s = spread_settings settings in
        [sec_description]
      @ (if truthy (get_prop s ''includeSummary'') then [sec_summary] else [])
      @ (if truthy (get_prop s ''includeLinkedIssues'') then [sec_related prLink] else [])
      @ [sec_type_of_change]
      @ (if truthy (get_prop s ''includeChecklist'') then [sec_checklist] else [])
      @ (if truthy (get_prop s ''includeBreakingChanges'') then [sec_breaking] else [])
      @ [sec_testing]
      @ (if truthy (get_prop s ''includeScreenshots'') then [sec_screenshots] else [])
      @ [sec_notes])"

definition buildSectionsList :: "string option \<Rightarrow> (string \<rightharpoonup> jsval) option \<Rightarrow> string" where
  "buildSectionsList prLink settings =
     join_str (CHR 0x0A # ''    '') (sectionEntries prLink settings)"

text \<open>The five toggle keys, and a settings object that binds all of them to one
  boolean.\<close>

definition toggleKeys :: "string list" where
  "toggleKeys = [''includeSummary'', ''includeChecklist'', ''includeBreakingChanges'',
     ''includeScreenshots'', ''includeLinkedIssues'']"

definition allToggles :: "bool \<Rightarrow> (string \<rightharpoonup> jsval) \<Rightarrow> bool" where
  "allToggles b m = list_all (\<lambda>k. m k = Some (JBool b)) toggleKeys"

section \<open>TextRangeEditor: \<open>applyFormat\<close> (pr-generator.js)\<close>

text \<open>
  The editor reads \<open>value\<close>, \<open>selectionStart\<close> and \<open>selectionEnd\<close> of the textarea and
  assigns new ones. A buffer is the triple of these three properties. \<open>applyFormat\<close>
  below gives the triple of the values that the code assigns, as integers; the setters of
  the textarea, which coerce what they are given, follow it, and \<open>applyFormat_textarea\<close>
  gives what the textarea holds after the call.
\<close>

record EditBuffer =
  tvalue :: string
  selectionStart :: int
  selectionEnd :: int

abbreviation newline :: char where
  "newline \<equiv> CHR 0x0A"

text \<open>The well-formedness of a buffer: \<open>0 \<le> selectionStart \<le> selectionEnd \<le> length\<close>.\<close>

definition wellFormed :: "EditBuffer \<Rightarrow> bool" where
  "wellFormed b =
     (0 \<le> selectionStart b \<and> selectionStart b \<le> selectionEnd b
      \<and> selectionEnd b \<le> int (length (tvalue b)))"

text \<open>\<open>text[i]\<close>: the code unit at \<open>i\<close>, \<open>undefined\<close> (\<open>None\<close>) out of range.\<close>

definition charAt :: "string \<Rightarrow> int \<Rightarrow> char option" where
  "charAt s i = (if 0 \<le> i \<and> i < int (length s) then Some (s ! nat i) else None)"

text \<open>\<open>s.replace(/^p/, r)\<close> for a literal \<open>p\<close>: only a match at index \<open>0\<close> is replaced.\<close>

definition replace_prefix :: "string \<Rightarrow> string \<Rightarrow> string \<Rightarrow> string" where
  "replace_prefix p r s = (if startsWith s p then r @ drop (length p) s else s)"

text \<open>\<open>s.split('\n').map(line => marker + line).join('\n')\<close>.\<close>

definition prefix_lines :: "string \<Rightarrow> string \<Rightarrow> string" where
  "prefix_lines marker s =
     join_str [newline] (map (\<lambda>line. marker @ line) (split_str newline s))"

text \<open>\<open>selected || placeholder\<close>: the empty string is falsy.\<close>

definition or_else :: "string \<Rightarrow> string \<Rightarrow> string" where
  "or_else selected placeholder = (if selected \<noteq> [] then selected else placeholder)"

text \<open>\<open>start > 0 && text[start - 1] !== '\n' ? '\n' : ''\<close>.\<close>

definition line_break_before :: "string \<Rightarrow> int \<Rightarrow> string" where
  "line_break_before s start =
     (if 0 < start \<and> charAt s (start - 1) \<noteq> Some newline then [newline] else [])"

text \<open>The heading case of the switch, which returns by itself: the value and the cursor
  position that it assigns.\<close>

definition heading :: "EditBuffer \<Rightarrow> EditBuffer" where
  "heading b =
     (let start = selectionStart b;
          stop = selectionEnd b;
          txt0 = tvalue b;
          lineStart = lastIndexOf txt0 newline (start - 1) + 1;
          lineText = substring txt0 lineStart stop
      in if startsWith lineText ''### '' then
           \<lparr> tvalue = substring txt0 0 lineStart @ replace_prefix ''### '' [] lineText
                        @ substring_from txt0 stop,
             selectionStart = start - 4, selectionEnd = start - 4 \<rparr>
         else if startsWith lineText ''## '' then
           \<lparr> tvalue = substring txt0 0 lineStart @ replace_prefix ''## '' ''### '' lineText
                        @ substring_from txt0 stop,
             selectionStart = start + 1, selectionEnd = start + 1 \<rparr>
         else if startsWith lineText ''# '' then
           \<lparr> tvalue = substring txt0 0 lineStart @ replace_prefix ''# '' ''## '' lineText
                        @ substring_from txt0 stop,
             selectionStart = start + 1, selectionEnd = start + 1 \<rparr>
         else
           \<lparr> tvalue = substring txt0 0 lineStart @ ''## '' @ lineText
                        @ substring_from txt0 stop,
             selectionStart = start + 3, selectionEnd = start + 3 \<rparr>)"

text \<open>The code after the switch (lines 377--390), for the \<open>before\<close>, \<open>insert\<close>, \<open>after\<close>
  and \<open>cursorOffset\<close> that a case has set (\<open>bef\<close>, \<open>ins\<close>, \<open>aft\<close>; \<open>stop\<close> is the local \<open>end\<close>
  and \<open>txt0\<close> the local \<open>text\<close>).\<close>

definition replace_selection :: "EditBuffer \<Rightarrow> string \<Rightarrow> string \<Rightarrow> string \<Rightarrow> int \<Rightarrow> EditBuffer" where
  "replace_selection b bef ins aft cursorOffset =
     (let start = selectionStart b;
          stop = selectionEnd b;
          txt0 = tvalue b;
          selected = substring txt0 start stop;
          replacement = bef @ ins @ aft;
          v = substring txt0 0 start @ replacement @ substring_from txt0 stop
      in if selected \<noteq> [] then
           \<lparr> tvalue = v,
             selectionStart = start + int (length bef),
             selectionEnd = start + int (length bef) + int (length ins) \<rparr>
         else
           (let pos = start + int (length bef) + cursorOffset
            in \<lparr> tvalue = v,
                 selectionStart = pos,
                 selectionEnd = pos + int (length ins) - cursorOffset \<rparr>))"

text \<open>\<open>applyFormat(textarea, action)\<close>. An action outside the switch leaves the buffer as
  it is.\<close>

definition applyFormat :: "EditBuffer \<Rightarrow> string \<Rightarrow> EditBuffer" where
  "applyFormat b action =
     (let start = selectionStart b;
          stop = selectionEnd b;
          txt0 = tvalue b;
          selected = substring txt0 start stop
      in if action = ''bold'' then
           replace_selection b ''**'' (or_else selected ''bold text'') ''**''
             (if selected \<noteq> [] then 0 else int (length ''**''))
         else if action = ''italic'' then
           replace_selection b ''*'' (or_else selected ''italic text'') ''*''
             (if selected \<noteq> [] then 0 else int (length ''*''))
         else if action = ''strikethrough'' then
           replace_selection b ''~~'' (or_else selected ''strikethrough'') ''~~''
             (if selected \<noteq> [] then 0 else int (length ''~~''))
         else if action = ''heading'' then heading b
         else if action = ''code'' then
           replace_selection b ''`'' (or_else selected ''code'') ''`''
             (if selected \<noteq> [] then 0 else int (length ''`''))
         else if action = ''link'' then
           (if selected \<noteq> [] then replace_selection b ''['' selected ''](url)'' 0
            else replace_selection b [] ''[link text](url)'' [] 1)
         else if action = ''ul'' then
           replace_selection b (line_break_before txt0 start)
             (prefix_lines ''- '' (or_else selected ''list item'')) [] 0
         else if action = ''checklist'' then
           replace_selection b (line_break_before txt0 start)
             (prefix_lines ''- [ ] '' (or_else selected ''task item'')) [] 0
         else if action = ''quote'' then
           replace_selection b (line_break_before txt0 start)
             (prefix_lines ''> '' (or_else selected ''quote'')) [] 0
         else b)"

text \<open>The marker and the placeholder of the four wrap operations.\<close>

fun wrap_marker :: "string \<Rightarrow> string" where
  "wrap_marker action =
     (if action = ''bold'' then ''**''
      else if action = ''italic'' then ''*''
      else if action = ''strikethrough'' then ''~~''
      else if action = ''code'' then ''`''
      else [])"

fun wrap_placeholder :: "string \<Rightarrow> string" where
  "wrap_placeholder action =
     (if action = ''bold'' then ''bold text''
      else if action = ''italic'' then ''italic text''
      else if action = ''strikethrough'' then ''strikethrough''
      else if action = ''code'' then ''code''
      else [])"

definition wrap_actions :: "string list" where
  "wrap_actions = [''bold'', ''italic'', ''strikethrough'', ''code'']"

text \<open>The operations of the editor, by the names the switch tests.\<close>

definition editor_actions :: "string list" where
  "editor_actions = [''bold'', ''italic'', ''strikethrough'', ''code'', ''link'',
     ''heading'', ''ul'', ''checklist'', ''quote'']"

text \<open>The two locals of the heading case: the start of the line that holds the selection
  start (\<open>lineStart\<close>), and the text from there to the selection end (\<open>lineText\<close>).\<close>

definition lineStart_of :: "EditBuffer \<Rightarrow> int" where
  "lineStart_of b = lastIndexOf (tvalue b) newline (selectionStart b - 1) + 1"

definition lineText_of :: "EditBuffer \<Rightarrow> string" where
  "lineText_of b = substring (tvalue b) (lineStart_of b) (selectionEnd b)"

text \<open>
  A buffer laid out around one line: \<open>a\<close> is everything before the line (empty, or ending
  in a line break), \<open>l1\<close> the text of the line before the selection start, \<open>l2\<close> the
  selected text and \<open>b\<close> everything after the selection. The line text of the heading
  case is then \<open>l1 @ l2\<close>.
\<close>

definition line_buffer :: "string \<Rightarrow> string \<Rightarrow> string \<Rightarrow> string \<Rightarrow> EditBuffer" where
  "line_buffer a l1 l2 b =
     \<lparr> tvalue = a @ l1 @ l2 @ b,
       selectionStart = int (length a) + int (length l1),
       selectionEnd = int (length a) + int (length l1) + int (length l2) \<rparr>"

text \<open>A buffer with a collapsed selection.\<close>

definition cursor_at :: "string \<Rightarrow> int \<Rightarrow> EditBuffer" where
  "cursor_at t c = \<lparr> tvalue = t, selectionStart = c, selectionEnd = c \<rparr>"

text \<open>What precedes a line: nothing, or text that ends in a line break.\<close>

definition line_start_ok :: "string \<Rightarrow> bool" where
  "line_start_ok a = (a = [] \<or> last a = newline)"

text \<open>A line text that starts with none of the three heading prefixes.\<close>

definition no_heading_prefix :: "string \<Rightarrow> bool" where
  "no_heading_prefix s =
     (\<not> startsWith s ''### '' \<and> \<not> startsWith s ''## '' \<and> \<not> startsWith s ''# '')"

subsection \<open>The setters of the textarea\<close>

text \<open>
  Every caller passes the textarea element of the page. Its \<open>selectionStart\<close> and
  \<open>selectionEnd\<close> are \<open>unsigned long\<close> attributes: an assigned number is taken modulo
  \<open>2^32\<close>, and the selection range is then set with both ends limited to the length of
  the text, the start moved to the end where the end is not behind it.
\<close>

definition to_unsigned_long :: "int \<Rightarrow> int" where
  "to_unsigned_long v = v mod 4294967296"

definition set_selection_range :: "EditBuffer \<Rightarrow> int \<Rightarrow> int \<Rightarrow> EditBuffer" where
  "set_selection_range ta s e =
     (let n = int (length (tvalue ta));
          s' = min s n;
          e' = min e n
      in if e' \<le> s' then ta \<lparr> selectionStart := e', selectionEnd := e' \<rparr>
         else ta \<lparr> selectionStart := s', selectionEnd := e' \<rparr>)"

text \<open>The setter of \<open>selectionStart\<close> keeps the current end, or moves it to the given
  value where that is greater; the setter of \<open>selectionEnd\<close> keeps the current start.\<close>

definition set_selectionStart :: "EditBuffer \<Rightarrow> int \<Rightarrow> EditBuffer" where
  "set_selectionStart ta v =
     (let given = to_unsigned_long v;
          e = selectionEnd ta;
          e' = (if e < given then given else e)
      in set_selection_range ta given e')"

definition set_selectionEnd :: "EditBuffer \<Rightarrow> int \<Rightarrow> EditBuffer" where
  "set_selectionEnd ta v = set_selection_range ta (selectionStart ta) (to_unsigned_long v)"

text \<open>The setter of \<open>value\<close>: a new text moves the cursor to its end.\<close>

definition set_value :: "EditBuffer \<Rightarrow> string \<Rightarrow> EditBuffer" where
  "set_value ta v =
     (if v = tvalue ta then ta
      else \<lparr> tvalue = v, selectionStart = int (length v), selectionEnd = int (length v) \<rparr>)"

text \<open>\<open>textarea.value = v; textarea.selectionStart = textarea.selectionEnd = c\<close> of the
  heading case (the inner assignment, to \<open>selectionEnd\<close>, comes first), and
  \<open>textarea.value = v; textarea.selectionStart = s; textarea.selectionEnd = e\<close> of the
  code after the switch.\<close>

definition store_collapsed :: "EditBuffer \<Rightarrow> string \<Rightarrow> int \<Rightarrow> EditBuffer" where
  "store_collapsed ta v c = set_selectionStart (set_selectionEnd (set_value ta v) c) c"

definition store_selection :: "EditBuffer \<Rightarrow> string \<Rightarrow> int \<Rightarrow> int \<Rightarrow> EditBuffer" where
  "store_selection ta v s e = set_selectionEnd (set_selectionStart (set_value ta v) s) e"

text \<open>What the textarea holds after \<open>applyFormat(textarea, action)\<close>: the assigned values
  of \<open>applyFormat\<close>, passed through the setters in the order of the source. An action
  outside the switch assigns nothing.\<close>

definition applyFormat_textarea :: "EditBuffer \<Rightarrow> string \<Rightarrow> EditBuffer" where
  "applyFormat_textarea ta action =
     (if action = ''heading'' then
        (let r = heading ta in store_collapsed ta (tvalue r) (selectionStart r))
      else if action \<in> set editor_actions then
        (let r = applyFormat ta action
         in store_selection ta (tvalue r) (selectionStart r) (selectionEnd r))
      else ta)"

section \<open>RepoRefParser: \<open>parseGitHubUrl\<close> (issueController.js)\<close>

text \<open>
  The \<open>URL\<close> constructor belongs to the platform, not to the repository: it is a
  parameter \<open>newURL\<close> that yields the parsed URL, or \<open>None\<close> where the constructor throws.
  Of a parsed URL the function reads \<open>pathname\<close> only; scheme and host are kept in the
  record to state that they are not read.
\<close>

record URL =
  protocol :: string
  host :: string
  pathname :: string

record RepoRef =
  owner :: string
  repo :: string

text \<open>\<open>String.prototype.endsWith\<close>, and \<open>s.replace(/\.git$/, '')\<close>: without the \<open>m\<close> flag
  \<open>$\<close> matches at the end of the string only, so at most the last four code units go.\<close>

definition endsWith :: "string \<Rightarrow> string \<Rightarrow> bool" where
  "endsWith s p = (length p \<le> length s \<and> drop (length s - length p) s = p)"

definition remove_git_suffix :: "string \<Rightarrow> string" where
  "remove_git_suffix s = (if endsWith s ''.git'' then take (length s - 4) s else s)"

definition parseGitHubUrl :: "(string \<Rightarrow> URL option) \<Rightarrow> string \<Rightarrow> RepoRef option" where
  "parseGitHubUrl newURL url =
     (case newURL url of
        None \<Rightarrow> None
      | Some urlObj \<Rightarrow>
          (let pathname' = remove_git_suffix (pathname urlObj);
               parts = filter (\<lambda>s. s \<noteq> []) (split_str (CHR ''/'') pathname')
           in if 2 \<le> length parts
              then Some \<lparr> owner = parts ! 0, repo = parts ! 1 \<rparr>
              else None))"

text \<open>The segments of a path in the words of the specification: strip a trailing
  \<open>.git\<close>, split on \<open>/\<close>, discard the empty segments.\<close>

definition path_segments :: "string \<Rightarrow> string list" where
  "path_segments p = filter (\<lambda>s. s \<noteq> []) (split_str (CHR ''/'') (remove_git_suffix p))"

text \<open>The URL constructor on the sample inputs of the witnesses, with the values the
  WHATWG parser gives; it throws on the last kind of input.\<close>

definition sample_newURL :: "string \<Rightarrow> URL option" where
  "sample_newURL s =
     (if s = ''https://github.com/owner/repo.git'' then
        Some \<lparr> protocol = ''https:'', host = ''github.com'', pathname = ''/owner/repo.git'' \<rparr>
      else if s = ''https://gitlab.com/group/project/-/tree/main'' then
        Some \<lparr> protocol = ''https:'', host = ''gitlab.com'',
               pathname = ''/group/project/-/tree/main'' \<rparr>
      else if s = ''https://github.com/owner'' then
        Some \<lparr> protocol = ''https:'', host = ''github.com'', pathname = ''/owner'' \<rparr>
      else None)"

section \<open>ContextAggregator and EvidenceSummarizer: the aggregation step of \<open>validateIssue\<close>\<close>

text \<open>Reading one of the properties the controller reads (none of them is a built-in
  property of strings or arrays): a \<open>TypeError\<close> on \<open>undefined\<close> and \<open>null\<close>, \<open>undefined\<close>
  on a value that has no such property.\<close>

fun js_get :: "jsval \<Rightarrow> string \<Rightarrow> js_error + jsval" where
  "js_get JUndefined k = Inl TypeError"
| "js_get JNull k = Inl TypeError"
| "js_get (JObj kvs) k = (case map_of kvs k of None \<Rightarrow> Inr JUndefined | Some v \<Rightarrow> Inr v)"
| "js_get v k = Inr JUndefined"

text \<open>Decimal digits of an integer, as \<open>ToString\<close> prints it.\<close>

fun dec_digits :: "nat \<Rightarrow> string" where
  "dec_digits n =
     (if n < 10 then [char_of (48 + n)]
      else dec_digits (n div 10) @ [char_of (48 + n mod 10)])"

declare dec_digits.simps [simp del]

definition int_to_str :: "int \<Rightarrow> string" where
  "int_to_str i = (if i < 0 then CHR ''-'' # dec_digits (nat (- i)) else dec_digits (nat i))"

text \<open>\<open>ToString\<close>, as a template literal, \<open>+\<close> with a string and \<open>join\<close> apply it. An array
  prints its elements joined by commas, \<open>undefined\<close> and \<open>null\<close> elements as the empty
  string.\<close>

fun to_str :: "jsval \<Rightarrow> string" where
  "to_str JUndefined = ''undefined''"
| "to_str JNull = ''null''"
| "to_str (JBool b) = (if b then ''true'' else ''false'')"
| "to_str (JNum n) = int_to_str n"
| "to_str (JStr s) = s"
| "to_str (JArr xs) =
     join_str '','' (map (\<lambda>x. if x = JUndefined \<or> x = JNull then [] else to_str x) xs)"
| "to_str (JObj kvs) = ''[object Object]''"

text \<open>The element strings of \<open>Array.prototype.join\<close>.\<close>

definition join_elem :: "jsval \<Rightarrow> string" where
  "join_elem x = (if x = JUndefined \<or> x = JNull then [] else to_str x)"

text \<open>\<open>s.replace(/\n/g, ' ')\<close>.\<close>

definition newlines_to_spaces :: "string \<Rightarrow> string" where
  "newlines_to_spaces s = map (\<lambda>c. if c = newline then CHR '' '' else c) s"

text \<open>\<open>issue.created_at.split('T')[0]\<close>: only a string has \<open>split\<close>.\<close>

definition created_date :: "jsval \<Rightarrow> js_error + string" where
  "created_date v =
     (case v of
        JStr s \<Rightarrow> (case split_str (CHR ''T'') s of
                     [] \<Rightarrow> Inr ''undefined''
                   | d # _ \<Rightarrow> Inr d)
      | _ \<Rightarrow> Inl TypeError)"

text \<open>\<open>issue.body ? issue.body.substring(0, 200).replace(/\n/g, ' ') : 'No description'\<close>:
  a truthy body that is not a string has no \<open>substring\<close>.\<close>

definition body_snippet :: "jsval \<Rightarrow> js_error + string" where
  "body_snippet v =
     (if truthy v then
        (case v of
           JStr s \<Rightarrow> Inr (newlines_to_spaces (substring s 0 200))
         | _ \<Rightarrow> Inl TypeError)
      else Inr ''No description'')"

text \<open>The callback of \<open>data.map\<close>: one issue to its two lines. The properties are read in
  the order of the template.\<close>

definition issue_line :: "jsval \<Rightarrow> js_error + string" where
  "issue_line issue =
     (case js_get issue ''number'' of Inl e \<Rightarrow> Inl e | Inr num \<Rightarrow>
      case js_get issue ''state'' of Inl e \<Rightarrow> Inl e | Inr st \<Rightarrow>
      case js_get issue ''created_at'' of Inl e \<Rightarrow> Inl e | Inr created \<Rightarrow>
      case created_date created of Inl e \<Rightarrow> Inl e | Inr day \<Rightarrow>
      case js_get issue ''title'' of Inl e \<Rightarrow> Inl e | Inr title \<Rightarrow>
      case js_get issue ''body'' of Inl e \<Rightarrow> Inl e | Inr body \<Rightarrow>
      case body_snippet body of Inl e \<Rightarrow> Inl e | Inr snippet \<Rightarrow>
        Inr (''- #'' @ to_str num @ '' ['' @ to_str st @ ''] (Created: '' @ day @ '') ''
             @ to_str title @ [newline] @ ''  Snippet: '' @ snippet @ ''...''))"

text \<open>\<open>xs.map(f)\<close> for a callback that may throw: the first exception ends the loop.\<close>

fun map_throwing :: "('a \<Rightarrow> js_error + 'b) \<Rightarrow> 'a list \<Rightarrow> js_error + 'b list" where
  "map_throwing f [] = Inr []"
| "map_throwing f (x # xs) =
     (case f x of
        Inl e \<Rightarrow> Inl e
      | Inr y \<Rightarrow> (case map_throwing f xs of Inl e \<Rightarrow> Inl e | Inr ys \<Rightarrow> Inr (y # ys)))"

text \<open>\<open>xs.filter(p)\<close> for a callback that may throw.\<close>

fun filter_throwing :: "('a \<Rightarrow> js_error + bool) \<Rightarrow> 'a list \<Rightarrow> js_error + 'a list" where
  "filter_throwing p [] = Inr []"
| "filter_throwing p (x # xs) =
     (case p x of
        Inl e \<Rightarrow> Inl e
      | Inr keep \<Rightarrow>
          (case filter_throwing p xs of
             Inl e \<Rightarrow> Inl e
           | Inr ys \<Rightarrow> Inr (if keep then x # ys else ys)))"

text \<open>\<open>issuesRes.value.data.map(...).join("\n")\<close>: only an array has \<open>map\<close>.\<close>

definition summarizeIssues :: "jsval \<Rightarrow> js_error + string" where
  "summarizeIssues data =
     (case data of
        JArr issues \<Rightarrow>
          (case map_throwing issue_line issues of
             Inl e \<Rightarrow> Inl e
           | Inr ls \<Rightarrow> Inr (join_str [newline] ls))
      | _ \<Rightarrow> Inl TypeError)"

text \<open>The callback of \<open>tree.filter\<close>: \<open>item.type === 'blob'\<close>.\<close>

definition is_blob :: "jsval \<Rightarrow> js_error + bool" where
  "is_blob item =
     (case js_get item ''type'' of Inl e \<Rightarrow> Inl e | Inr t \<Rightarrow> Inr (t = JStr ''blob''))"

text \<open>\<open>data.tree.filter(...).slice(0, 100).map(item => item.path).join("\n")\<close>: the filter
  visits every entry before the slice.\<close>

definition summarizeTree :: "jsval \<Rightarrow> js_error + string" where
  "summarizeTree data =
     (case js_get data ''tree'' of Inl e \<Rightarrow> Inl e | Inr tree \<Rightarrow>
      case tree of
        JArr items \<Rightarrow>
          (case filter_throwing is_blob items of
             Inl e \<Rightarrow> Inl e
           | Inr blobs \<Rightarrow>
               (case map_throwing (\<lambda>item. js_get item ''path'') (take 100 blobs) of
                  Inl e \<Rightarrow> Inl e
                | Inr paths \<Rightarrow> Inr (join_str [newline] (map join_elem paths))))
      | _ \<Rightarrow> Inl TypeError)"

text \<open>The outcome of a request, as \<open>Promise.allSettled\<close> reports it: the \<open>data\<close> of the
  response, or the reason of the rejection.\<close>

datatype settled = Fulfilled jsval | Rejected jsval

record EvidenceBundle =
  issuesSummary :: string
  treeSummary :: string

definition issues_default :: string where
  "issues_default = ''Could not fetch existing issues.''"

definition tree_default :: string where
  "tree_default = ''Could not fetch project files.''"

definition tree_unavailable :: string where
  "tree_unavailable = ''Could not fetch file tree (repo might be empty or too large/private).''"

text \<open>Lines 44--50: the value assigned to \<open>existingIssuesSummary\<close>, or the exception that
  leaves it unassigned.\<close>

definition issues_step :: "settled \<Rightarrow> js_error + string" where
  "issues_step issuesRes =
     (case issuesRes of
        Fulfilled data \<Rightarrow> summarizeIssues data
      | Rejected reason \<Rightarrow>
          (case js_get reason ''message'' of
             Inl e \<Rightarrow> Inl e
           | Inr m \<Rightarrow> Inr (''Error fetching issues: '' @ to_str m)))"

text \<open>Lines 52--72: the value assigned to \<open>projectContext\<close>. The request for the second
  branch is made only after the first was rejected, inside its own \<open>try\<close>, whose \<open>catch\<close>
  assigns the placeholder.\<close>

definition tree_step :: "settled \<Rightarrow> settled \<Rightarrow> js_error + string" where
  "tree_step treeRes fallbackRes =
     (case treeRes of
        Fulfilled data \<Rightarrow> summarizeTree data
      | Rejected reason \<Rightarrow>
          (case fallbackRes of
             Fulfilled data \<Rightarrow>
               (case summarizeTree data of
                  Inl e \<Rightarrow> Inr tree_unavailable
                | Inr s \<Rightarrow> Inr s)
           | Rejected reason' \<Rightarrow> Inr tree_unavailable))"

text \<open>Lines 31--76. The two variables start as placeholders; an exception in the \<open>try\<close>
  block skips the rest of the block, is logged by the \<open>catch\<close>, and the function goes on
  with what the variables hold.\<close>

definition aggregate :: "settled \<Rightarrow> settled \<Rightarrow> settled \<Rightarrow> js_error + EvidenceBundle" where
  "aggregate issuesRes treeRes fallbackRes =
     (let st0 = \<lparr> issuesSummary = issues_default, treeSummary = tree_default \<rparr>
      in case issues_step issuesRes of
           Inl e \<Rightarrow> Inr st0
         | Inr s \<Rightarrow>
             (let st1 = st0 \<lparr> issuesSummary := s \<rparr>
              in case tree_step treeRes fallbackRes of
                   Inl e \<Rightarrow> Inr st1
                 | Inr c \<Rightarrow> Inr (st1 \<lparr> treeSummary := c \<rparr>)))"

section \<open>Properties of the SectionPlanner\<close>

lemma getprop_spread_Some:
  "m k = Some v \<Longrightarrow> get_prop (spread_settings (Some m)) k = v"
  by (simp add: get_prop_def spread_settings_def map_add_def)

lemma getprop_spread_absent:
  "m k = None \<Longrightarrow> get_prop (spread_settings (Some m)) k = get_prop defaults k"
  by (simp add: get_prop_def spread_settings_def map_add_def)

lemma getprop_spread_None:
  "get_prop (spread_settings None) k = get_prop defaults k"
  by (simp add: get_prop_def spread_settings_def)

lemma sec_lines_distinct:
  "distinct [sec_description, sec_summary, sec_related prLink, sec_type_of_change,
     sec_checklist, sec_breaking, sec_testing, sec_screenshots, sec_notes]"
  by (simp add: sec_lines_defs emoji_defs)

lemma summary_mem:
  "sec_summary \<in> set (sectionEntries prLink settings)
     \<longleftrightarrow> truthy (get_prop (spread_settings settings) ''includeSummary'')"
  using sec_lines_distinct [of prLink] by (auto simp add: sectionEntries_def Let_def)

lemma related_mem:
  "sec_related prLink \<in> set (sectionEntries prLink settings)
     \<longleftrightarrow> truthy (get_prop (spread_settings settings) ''includeLinkedIssues'')"
  using sec_lines_distinct [of prLink] by (auto simp add: sectionEntries_def Let_def)

lemma checklist_mem:
  "sec_checklist \<in> set (sectionEntries prLink settings)
     \<longleftrightarrow> truthy (get_prop (spread_settings settings) ''includeChecklist'')"
  using sec_lines_distinct [of prLink] by (auto simp add: sectionEntries_def Let_def)

lemma breaking_mem:
  "sec_breaking \<in> set (sectionEntries prLink settings)
     \<longleftrightarrow> truthy (get_prop (spread_settings settings) ''includeBreakingChanges'')"
  using sec_lines_distinct [of prLink] by (auto simp add: sectionEntries_def Let_def)

lemma screenshots_mem:
  "sec_screenshots \<in> set (sectionEntries prLink settings)
     \<longleftrightarrow> truthy (get_prop (spread_settings settings) ''includeScreenshots'')"
  using sec_lines_distinct [of prLink] by (auto simp add: sectionEntries_def Let_def)

lemma defaults_true:
  "k \<in> set toggleKeys \<Longrightarrow> get_prop defaults k = JBool True"
  by (auto simp add: toggleKeys_def get_prop_def defaults_def)

text \<open>
  Claim C2, as amended. With all five toggles bound to \<open>true\<close> the planner emits exactly
  the nine sections, in the order Description, Summary, Related Issue, Type of Change,
  Checklist, Breaking Changes, Testing Details, Screenshots, Additional Notes; with all
  five bound to \<open>false\<close> it emits exactly the four unconditional ones (Description, Type of
  Change, Testing Details, Additional Notes), in the same relative order. The returned
  string is the join of these lines.
\<close>

theorem buildSectionsList_all_true_all_false:
  "(allToggles True m \<longrightarrow>
      sectionEntries prLink (Some m) =
        [sec_description, sec_summary, sec_related prLink, sec_type_of_change,
         sec_checklist, sec_breaking, sec_testing, sec_screenshots, sec_notes]
      \<and> length (sectionEntries prLink (Some m)) = 9)
   \<and> (allToggles False m \<longrightarrow>
      sectionEntries prLink (Some m) =
        [sec_description, sec_type_of_change, sec_testing, sec_notes]
      \<and> length (sectionEntries prLink (Some m)) = 4)
   \<and> buildSectionsList prLink (Some m) =
        join_str (CHR 0x0A # ''    '') (sectionEntries prLink (Some m))"
  by (simp add: allToggles_def toggleKeys_def sectionEntries_def getprop_spread_Some
      buildSectionsList_def)

theorem buildSectionsList_all_true_all_false_witness:
  "allToggles True
     [''includeSummary'' \<mapsto> JBool True, ''includeChecklist'' \<mapsto> JBool True,
      ''includeBreakingChanges'' \<mapsto> JBool True, ''includeScreenshots'' \<mapsto> JBool True,
      ''includeLinkedIssues'' \<mapsto> JBool True]
   \<and> length (sectionEntries None (Some
     [''includeSummary'' \<mapsto> JBool True, ''includeChecklist'' \<mapsto> JBool True,
      ''includeBreakingChanges'' \<mapsto> JBool True, ''includeScreenshots'' \<mapsto> JBool True,
      ''includeLinkedIssues'' \<mapsto> JBool True])) = 9
   \<and> allToggles False
     [''includeSummary'' \<mapsto> JBool False, ''includeChecklist'' \<mapsto> JBool False,
      ''includeBreakingChanges'' \<mapsto> JBool False, ''includeScreenshots'' \<mapsto> JBool False,
      ''includeLinkedIssues'' \<mapsto> JBool False]
   \<and> sectionEntries None (Some
     [''includeSummary'' \<mapsto> JBool False, ''includeChecklist'' \<mapsto> JBool False,
      ''includeBreakingChanges'' \<mapsto> JBool False, ''includeScreenshots'' \<mapsto> JBool False,
      ''includeLinkedIssues'' \<mapsto> JBool False])
     = [sec_description, sec_type_of_change, sec_testing, sec_notes]"
proof -
  let ?t = "[''includeSummary'' \<mapsto> JBool True, ''includeChecklist'' \<mapsto> JBool True,
      ''includeBreakingChanges'' \<mapsto> JBool True, ''includeScreenshots'' \<mapsto> JBool True,
      ''includeLinkedIssues'' \<mapsto> JBool True]"
  let ?f = "[''includeSummary'' \<mapsto> JBool False, ''includeChecklist'' \<mapsto> JBool False,
      ''includeBreakingChanges'' \<mapsto> JBool False, ''includeScreenshots'' \<mapsto> JBool False,
      ''includeLinkedIssues'' \<mapsto> JBool False]"
  have t: "allToggles True ?t"
    by (simp add: allToggles_def toggleKeys_def)
  have f: "allToggles False ?f"
    by (simp add: allToggles_def toggleKeys_def)
  from t f buildSectionsList_all_true_all_false [of ?t None]
    buildSectionsList_all_true_all_false [of ?f None]
  show ?thesis by blast
qed

text \<open>The all-false plan has four entries, not five.\<close>

theorem all_false_five_sections_counterexample:
  "length (sectionEntries None (Some
     [''includeSummary'' \<mapsto> JBool False, ''includeChecklist'' \<mapsto> JBool False,
      ''includeBreakingChanges'' \<mapsto> JBool False, ''includeScreenshots'' \<mapsto> JBool False,
      ''includeLinkedIssues'' \<mapsto> JBool False])) \<noteq> 5"
  by (simp add: sectionEntries_def get_prop_def spread_settings_def map_add_def)

text \<open>
  Claim C10. A toggle key that the settings object binds to \<open>undefined\<close> replaces the
  default in the spread and reads as falsy, so its section is omitted; a key that the
  settings object does not have keeps the default \<open>true\<close> and its section is emitted.
  Stated for each of the five toggles.
\<close>

theorem buildSectionsList_undefined_overrides_default:
  "(m ''includeSummary'' = Some JUndefined \<longrightarrow>
      sec_summary \<notin> set (sectionEntries prLink (Some m)))
   \<and> (m ''includeSummary'' = None \<longrightarrow>
      sec_summary \<in> set (sectionEntries prLink (Some m)))
   \<and> (m ''includeLinkedIssues'' = Some JUndefined \<longrightarrow>
      sec_related prLink \<notin> set (sectionEntries prLink (Some m)))
   \<and> (m ''includeLinkedIssues'' = None \<longrightarrow>
      sec_related prLink \<in> set (sectionEntries prLink (Some m)))
   \<and> (m ''includeChecklist'' = Some JUndefined \<longrightarrow>
      sec_checklist \<notin> set (sectionEntries prLink (Some m)))
   \<and> (m ''includeChecklist'' = None \<longrightarrow>
      sec_checklist \<in> set (sectionEntries prLink (Some m)))
   \<and> (m ''includeBreakingChanges'' = Some JUndefined \<longrightarrow>
      sec_breaking \<notin> set (sectionEntries prLink (Some m)))
   \<and> (m ''includeBreakingChanges'' = None \<longrightarrow>
      sec_breaking \<in> set (sectionEntries prLink (Some m)))
   \<and> (m ''includeScreenshots'' = Some JUndefined \<longrightarrow>
      sec_screenshots \<notin> set (sectionEntries prLink (Some m)))
   \<and> (m ''includeScreenshots'' = None \<longrightarrow>
      sec_screenshots \<in> set (sectionEntries prLink (Some m)))"
  by (simp add: summary_mem related_mem checklist_mem breaking_mem screenshots_mem
      getprop_spread_Some getprop_spread_absent defaults_true toggleKeys_def)


theorem buildSectionsList_undefined_overrides_default_witness:
  "[''includeSummary'' \<mapsto> JUndefined] ''includeSummary'' = Some JUndefined
   \<and> sec_summary \<notin> set (sectionEntries None (Some [''includeSummary'' \<mapsto> JUndefined]))
   \<and> [''includeSummary'' \<mapsto> JUndefined] ''includeChecklist'' = None
   \<and> sec_checklist \<in> set (sectionEntries None (Some [''includeSummary'' \<mapsto> JUndefined]))"
  using buildSectionsList_undefined_overrides_default
    [of "[''includeSummary'' \<mapsto> JUndefined]" None]
  by simp

section \<open>Properties of the string primitives\<close>

lemma substring_range:
  assumes "0 \<le> a" and "a \<le> b" and "b \<le> int (length s)"
  shows "substring s a b = take (nat (b - a)) (drop (nat a) s)"
proof -
  have "max a 0 = a" "max b 0 = b" "min a (int (length s)) = a"
    "min b (int (length s)) = b" "min a b = a" "max a b = b"
    using assms by auto
  then show ?thesis
    unfolding substring_def Let_def by simp
qed

lemma substring_zero:
  assumes "0 \<le> a" and "a \<le> int (length s)"
  shows "substring s 0 a = take (nat a) s"
  using substring_range [of 0 a s] assms by simp

lemma substring_from_drop:
  assumes "0 \<le> a" and "a \<le> int (length s)"
  shows "substring_from s a = drop (nat a) s"
proof -
  have "nat (int (length s) - a) = length s - nat a"
    using assms by linarith
  then show ?thesis
    unfolding substring_from_def
    using substring_range [of a "int (length s)" s] assms by simp
qed

lemma substring_append_mid:
  "substring (a @ m @ r) (int (length a)) (int (length a) + int (length m)) = m"
  using substring_range [of "int (length a)" "int (length a) + int (length m)" "a @ m @ r"]
  by simp

lemma substring_append_pre:
  "substring (a @ r) 0 (int (length a)) = a"
  using substring_zero [of "int (length a)" "a @ r"] by simp

lemma substring_from_append:
  "substring_from (a @ r) (int (length a)) = r"
  using substring_from_drop [of "int (length a)" "a @ r"] by simp

lemma lastIndexOf_upto_line:
  assumes "c \<notin> set m" and "a \<noteq> [] \<Longrightarrow> last a = c" and "a @ m \<noteq> []"
  shows "lastIndexOf_upto (a @ m @ rest) c (length a + length m - 1) = int (length a) - 1"
  using assms
proof (induction m arbitrary: rest rule: rev_induct)
  case Nil
  then have a: "a \<noteq> []" and l: "last a = c" by auto
  show ?case
  proof (cases "length a - 1")
    case 0
    with a have "length a = 1" by (cases a) auto
    with l a show ?thesis by (cases a) auto
  next
    case (Suc j)
    then have len: "length a = Suc (Suc j)" by simp
    have "(a @ rest) ! Suc j = last a"
      using a len by (simp add: nth_append last_conv_nth)
    with l Suc len show ?thesis by simp
  qed
next
  case (snoc x m)
  then have x: "x \<noteq> c" and m: "c \<notin> set m" by auto
  show ?case
  proof (cases "length a + length m")
    case 0
    then have "a = []" "m = []" by auto
    with x show ?thesis by simp
  next
    case (Suc j)
    then have ne: "a @ m \<noteq> []" by auto
    have eq: "a @ (m @ [x]) @ rest = (a @ m) @ x # rest" by simp
    have j: "Suc j = length (a @ m)" using Suc by simp
    have nth: "(a @ (m @ [x]) @ rest) ! Suc j = x"
      unfolding eq j by (rule nth_append_length)
    have "lastIndexOf_upto (a @ (m @ [x]) @ rest) c (length a + length (m @ [x]) - 1)
        = lastIndexOf_upto (a @ (m @ [x]) @ rest) c (Suc j)"
      using Suc by simp
    also have "\<dots> = lastIndexOf_upto (a @ (m @ [x]) @ rest) c j"
      using nth x by simp
    also have "\<dots> = lastIndexOf_upto (a @ m @ ([x] @ rest)) c (length a + length m - 1)"
      using Suc by simp
    also have "\<dots> = int (length a) - 1"
      using snoc.IH [OF m snoc.prems(2) ne, of "[x] @ rest"] .
    finally show ?thesis .
  qed
qed

text \<open>The start of the line that holds the selection start.\<close>

lemma lineStart_line:
  assumes "newline \<notin> set m" and "a \<noteq> [] \<Longrightarrow> last a = newline"
    and "a = [] \<and> m = [] \<Longrightarrow> \<not> startsWith rest [newline]"
  shows "lastIndexOf (a @ m @ rest) newline (int (length a) + int (length m) - 1) + 1
           = int (length a)"
proof (cases "a @ m = []")
  case True
  then have "a = []" "m = []" by auto
  with assms(3) show ?thesis
    by (cases rest) (auto simp add: lastIndexOf_def startsWith_def)
next
  case False
  then have "0 < length a + length m" by auto
  then have "nat (max (int (length a) + int (length m) - 1) 0) = length a + length m - 1"
    by linarith
  then show ?thesis
    unfolding lastIndexOf_def
    using lastIndexOf_upto_line [OF assms(1) assms(2) False, of rest] by simp
qed

section \<open>Properties of the TextRangeEditor\<close>

subsection \<open>The heading case on a line\<close>

lemma lineStart_line_ok:
  assumes "newline \<notin> set m" and "line_start_ok a"
    and "a = [] \<and> m = [] \<longrightarrow> \<not> startsWith rest [newline]"
  shows "lastIndexOf (a @ m @ rest) newline (int (length a) + int (length m) - 1) + 1
           = int (length a)"
proof (rule lineStart_line)
  show "newline \<notin> set m" by (rule assms(1))
  show "last a = newline" if "a \<noteq> []"
    using that assms(2) by (simp add: line_start_ok_def)
  show "\<not> startsWith rest [newline]" if "a = [] \<and> m = []"
    using that assms(3) by blast
qed

lemma heading_on_line:
  assumes nl: "newline \<notin> set l1" and a: "line_start_ok a"
    and edge: "a = [] \<and> l1 = [] \<longrightarrow> \<not> startsWith (l2 @ b) [newline]"
  shows "heading (line_buffer a l1 l2 b) =
     (let L = l1 @ l2; start = int (length a) + int (length l1) in
      if startsWith L ''### '' then
        cursor_at (a @ replace_prefix ''### '' [] L @ b) (start - 4)
      else if startsWith L ''## '' then
        cursor_at (a @ replace_prefix ''## '' ''### '' L @ b) (start + 1)
      else if startsWith L ''# '' then
        cursor_at (a @ replace_prefix ''# '' ''## '' L @ b) (start + 1)
      else
        cursor_at (a @ ''## '' @ L @ b) (start + 3))"
proof -
  let ?t = "a @ l1 @ l2 @ b"
  have ls: "lastIndexOf ?t newline (int (length a) + int (length l1) - 1) + 1
      = int (length a)"
    using lineStart_line_ok [of l1 a "l2 @ b"] nl a edge by simp
  have lt: "substring ?t (int (length a))
       (int (length a) + int (length l1) + int (length l2)) = l1 @ l2"
    using substring_append_mid [of a "l1 @ l2" b] by (simp add: add.assoc)
  have pre: "substring ?t 0 (int (length a)) = a"
    by (rule substring_append_pre)
  have post: "substring_from ?t
       (int (length a) + int (length l1) + int (length l2)) = b"
    using substring_from_append [of "a @ l1 @ l2" b] by (simp add: add.assoc)
  show ?thesis
    unfolding heading_def line_buffer_def cursor_at_def Let_def
    by (simp only: EditBuffer.simps ls lt pre post)
qed

lemma heading_none:
  assumes "newline \<notin> set l1" and "line_start_ok a"
    and "a = [] \<and> l1 = [] \<longrightarrow> \<not> startsWith (l2 @ b) [newline]"
    and "no_heading_prefix (l1 @ l2)"
  shows "heading (line_buffer a l1 l2 b)
     = cursor_at (a @ ''## '' @ l1 @ l2 @ b) (int (length a) + int (length l1) + 3)"
  using heading_on_line [OF assms(1-3)] assms(4)
  by (simp add: Let_def no_heading_prefix_def)

lemma heading_h1:
  assumes "newline \<notin> set l1" and "line_start_ok a"
    and "a = [] \<and> l1 = [] \<longrightarrow> \<not> startsWith (l2 @ b) [newline]"
    and "l1 @ l2 = ''# '' @ rest"
  shows "heading (line_buffer a l1 l2 b)
     = cursor_at (a @ ''## '' @ rest @ b) (int (length a) + int (length l1) + 1)"
  using heading_on_line [OF assms(1-3)] assms(4)
  by (simp add: Let_def startsWith_def replace_prefix_def)

lemma heading_h2:
  assumes "newline \<notin> set l1" and "line_start_ok a"
    and "a = [] \<and> l1 = [] \<longrightarrow> \<not> startsWith (l2 @ b) [newline]"
    and "l1 @ l2 = ''## '' @ rest"
  shows "heading (line_buffer a l1 l2 b)
     = cursor_at (a @ ''### '' @ rest @ b) (int (length a) + int (length l1) + 1)"
  using heading_on_line [OF assms(1-3)] assms(4)
  by (simp add: Let_def startsWith_def replace_prefix_def)

lemma heading_h3:
  assumes "newline \<notin> set l1" and "line_start_ok a"
    and "a = [] \<and> l1 = [] \<longrightarrow> \<not> startsWith (l2 @ b) [newline]"
    and "l1 @ l2 = ''### '' @ rest"
  shows "heading (line_buffer a l1 l2 b)
     = cursor_at (a @ rest @ b) (int (length a) + int (length l1) - 4)"
  using heading_on_line [OF assms(1-3)] assms(4)
  by (simp add: Let_def startsWith_def replace_prefix_def)

text \<open>With the cursor behind the prefix, the three states follow one another.\<close>

lemma line_buffer_collapsed:
  "line_buffer a l1 [] b = cursor_at (a @ l1 @ b) (int (length a) + int (length l1))"
  by (simp add: line_buffer_def cursor_at_def)

lemma heading_step_none:
  assumes "newline \<notin> set r" and "line_start_ok a"
    and "a = [] \<and> r = [] \<longrightarrow> \<not> startsWith b [newline]" and "no_heading_prefix r"
  shows "heading (line_buffer a r [] b) = line_buffer a (''## '' @ r) [] b"
proof -
  have "heading (line_buffer a r [] b)
      = cursor_at (a @ ''## '' @ r @ [] @ b) (int (length a) + int (length r) + 3)"
    by (rule heading_none) (use assms in simp_all)
  also have "\<dots> = line_buffer a (''## '' @ r) [] b"
    by (simp add: line_buffer_def cursor_at_def)
  finally show ?thesis .
qed

lemma heading_step_h2:
  assumes "newline \<notin> set r" and "line_start_ok a"
  shows "heading (line_buffer a (''## '' @ r) [] b) = line_buffer a (''### '' @ r) [] b"
proof -
  have "heading (line_buffer a (''## '' @ r) [] b)
      = cursor_at (a @ ''### '' @ r @ b) (int (length a) + int (length (''## '' @ r)) + 1)"
    by (rule heading_h2) (use assms in simp_all)
  also have "\<dots> = line_buffer a (''### '' @ r) [] b"
    by (simp add: line_buffer_def cursor_at_def)
  finally show ?thesis .
qed

lemma heading_step_h3:
  assumes "newline \<notin> set r" and "line_start_ok a"
  shows "heading (line_buffer a (''### '' @ r) [] b) = line_buffer a r [] b"
proof -
  have "heading (line_buffer a (''### '' @ r) [] b)
      = cursor_at (a @ r @ b) (int (length a) + int (length (''### '' @ r)) - 4)"
    by (rule heading_h3) (use assms in simp_all)
  also have "\<dots> = line_buffer a r [] b"
    by (simp add: line_buffer_def cursor_at_def)
  finally show ?thesis .
qed

lemma length_substring:
  assumes "0 \<le> a" "a \<le> int (length s)" "0 \<le> b" "b \<le> int (length s)"
  shows "int (length (substring s a b)) = \<bar>b - a\<bar>"
proof (cases "a \<le> b")
  case True
  with assms show ?thesis by (simp add: substring_range)
next
  case False
  then have ba: "b \<le> a" by simp
  have "max a 0 = a" "max b 0 = b" "min a (int (length s)) = a"
    "min b (int (length s)) = b" "min a b = b" "max a b = a"
    using assms ba by auto
  then have "substring s a b = take (nat (a - b)) (drop (nat b) s)"
    unfolding substring_def Let_def by simp
  with assms ba show ?thesis by simp
qed

lemma length_substring_from:
  assumes "0 \<le> a" "a \<le> int (length s)"
  shows "int (length (substring_from s a)) = int (length s) - a"
  using assms by (simp add: substring_from_drop)

lemma lastIndexOf_upto_bounds:
  "- 1 \<le> lastIndexOf_upto s c k \<and> lastIndexOf_upto s c k \<le> int k
     \<and> lastIndexOf_upto s c k + 1 \<le> int (length s)"
proof (induction k)
  case 0
  show ?case by (cases s) auto
next
  case (Suc k)
  then show ?case by auto
qed

lemma lineStart_of_bounds:
  assumes "wellFormed b"
  shows "0 \<le> lineStart_of b" and "lineStart_of b \<le> int (length (tvalue b))"
    and "lineStart_of b \<le> max (selectionStart b) 1"
proof -
  let ?k = "nat (max (selectionStart b - 1) 0)"
  note bnd = lastIndexOf_upto_bounds [of "tvalue b" newline ?k]
  from bnd show "0 \<le> lineStart_of b"
    by (simp add: lineStart_of_def lastIndexOf_def)
  from bnd show "lineStart_of b \<le> int (length (tvalue b))"
    by (simp add: lineStart_of_def lastIndexOf_def)
  have "int ?k + 1 \<le> max (selectionStart b) 1" by linarith
  with bnd show "lineStart_of b \<le> max (selectionStart b) 1"
    by (simp add: lineStart_of_def lastIndexOf_def)
qed

lemma startsWith_length:
  assumes "startsWith s p"
  shows "length p \<le> length s"
proof -
  from assms have "length (take (length p) s) = length p"
    by (simp add: startsWith_def)
  then show ?thesis by simp
qed

lemma length_replace_prefix:
  "startsWith s p \<Longrightarrow> int (length (replace_prefix p r s))
     = int (length s) - int (length p) + int (length r)"
  using startsWith_length [of s p] by (simp add: replace_prefix_def)

lemma heading_unfold:
  "heading b =
     (if startsWith (lineText_of b) ''### '' then
        \<lparr> tvalue = substring (tvalue b) 0 (lineStart_of b)
                     @ replace_prefix ''### '' [] (lineText_of b)
                     @ substring_from (tvalue b) (selectionEnd b),
          selectionStart = selectionStart b - 4, selectionEnd = selectionStart b - 4 \<rparr>
      else if startsWith (lineText_of b) ''## '' then
        \<lparr> tvalue = substring (tvalue b) 0 (lineStart_of b)
                     @ replace_prefix ''## '' ''### '' (lineText_of b)
                     @ substring_from (tvalue b) (selectionEnd b),
          selectionStart = selectionStart b + 1, selectionEnd = selectionStart b + 1 \<rparr>
      else if startsWith (lineText_of b) ''# '' then
        \<lparr> tvalue = substring (tvalue b) 0 (lineStart_of b)
                     @ replace_prefix ''# '' ''## '' (lineText_of b)
                     @ substring_from (tvalue b) (selectionEnd b),
          selectionStart = selectionStart b + 1, selectionEnd = selectionStart b + 1 \<rparr>
      else
        \<lparr> tvalue = substring (tvalue b) 0 (lineStart_of b) @ ''## '' @ lineText_of b
                     @ substring_from (tvalue b) (selectionEnd b),
          selectionStart = selectionStart b + 3, selectionEnd = selectionStart b + 3 \<rparr>)"
  unfolding heading_def lineText_of_def lineStart_of_def Let_def ..

lemma heading_wellFormed:
  assumes wf: "wellFormed b"
    and h3: "startsWith (lineText_of b) ''### '' \<longrightarrow> 4 \<le> selectionStart b"
  shows "wellFormed (heading b)"
proof -
  let ?n = "int (length (tvalue b))"
  let ?s = "selectionStart b" and ?e = "selectionEnd b" and ?ls = "lineStart_of b"
  from wf have se: "0 \<le> ?s" "?s \<le> ?e" "?e \<le> ?n"
    by (simp_all add: wellFormed_def)
  note ls = lineStart_of_bounds [OF wf]
  have pre: "int (length (substring (tvalue b) 0 ?ls)) = ?ls"
    using length_substring [of 0 "tvalue b" ?ls] ls by simp
  have post: "int (length (substring_from (tvalue b) ?e)) = ?n - ?e"
    using length_substring_from [of ?e "tvalue b"] se by simp
  have "int (length (lineText_of b)) = \<bar>?e - ?ls\<bar>"
    unfolding lineText_of_def using length_substring [of ?ls "tvalue b" ?e] ls se by simp
  then have lt: "?e - ?ls \<le> int (length (lineText_of b))" by simp
  show ?thesis
  proof (cases "startsWith (lineText_of b) ''### ''")
    case True
    with h3 have "4 \<le> ?s" by simp
    moreover note length_replace_prefix [OF True, of "[]"]
    ultimately show ?thesis
      using True pre post lt se by (simp add: heading_unfold wellFormed_def)
  next
    case n3: False
    show ?thesis
    proof (cases "startsWith (lineText_of b) ''## ''")
      case True
      note length_replace_prefix [OF True, of "''### ''"]
      then show ?thesis
        using True n3 pre post lt se by (simp add: heading_unfold wellFormed_def)
    next
      case n2: False
      show ?thesis
      proof (cases "startsWith (lineText_of b) ''# ''")
        case True
        note length_replace_prefix [OF True, of "''## ''"]
        then show ?thesis
          using True n3 n2 pre post lt se by (simp add: heading_unfold wellFormed_def)
      next
        case False
        then show ?thesis
          using n3 n2 pre post lt se by (simp add: heading_unfold wellFormed_def)
      qed
    qed
  qed
qed

subsection \<open>The code after the switch\<close>

lemma replace_selection_empty:
  assumes "0 \<le> p" and "p \<le> int (length t)"
  shows "replace_selection \<lparr> tvalue = t, selectionStart = p, selectionEnd = p \<rparr> bef ins aft off
     = \<lparr> tvalue = take (nat p) t @ bef @ ins @ aft @ drop (nat p) t,
         selectionStart = p + int (length bef) + off,
         selectionEnd = p + int (length bef) + int (length ins) \<rparr>"
proof -
  have "substring t p p = []"
    using assms by (simp add: substring_range)
  moreover have "substring t 0 p = take (nat p) t"
    using assms by (simp add: substring_zero)
  moreover have "substring_from t p = drop (nat p) t"
    using assms by (simp add: substring_from_drop)
  ultimately show ?thesis
    by (simp add: replace_selection_def Let_def)
qed

lemma replace_selection_wellFormed:
  assumes wf: "wellFormed b" and off: "0 \<le> off" "off \<le> int (length ins)"
  shows "wellFormed (replace_selection b bef ins aft off)"
proof -
  let ?n = "int (length (tvalue b))"
  let ?s = "selectionStart b" and ?e = "selectionEnd b"
  from wf have se: "0 \<le> ?s" "?s \<le> ?e" "?e \<le> ?n"
    by (simp_all add: wellFormed_def)
  have pre: "int (length (substring (tvalue b) 0 ?s)) = ?s"
    using length_substring [of 0 "tvalue b" ?s] se by simp
  have post: "int (length (substring_from (tvalue b) ?e)) = ?n - ?e"
    using length_substring_from [of ?e "tvalue b"] se by simp
  show ?thesis
    using pre post se off
    by (simp add: replace_selection_def Let_def wellFormed_def)
qed

lemma selected_empty:
  assumes "0 \<le> p" and "p \<le> int (length t)"
  shows "substring t p p = []"
  using assms by (simp add: substring_range)

lemma applyFormat_heading: "applyFormat b ''heading'' = heading b"
  by (simp add: applyFormat_def Let_def)

lemma applyFormat_link_empty:
  assumes "0 \<le> p" and "p \<le> int (length t)"
  shows "applyFormat \<lparr> tvalue = t, selectionStart = p, selectionEnd = p \<rparr> ''link''
     = \<lparr> tvalue = take (nat p) t @ ''[link text](url)'' @ drop (nat p) t,
         selectionStart = p + 1, selectionEnd = p + 16 \<rparr>"
  using replace_selection_empty [OF assms, of "[]" "''[link text](url)''" "[]" 1]
    selected_empty [OF assms]
  by (simp add: applyFormat_def Let_def)

lemma applyFormat_wrap_empty:
  assumes "0 \<le> p" and "p \<le> int (length t)" and "action \<in> set wrap_actions"
  shows "applyFormat \<lparr> tvalue = t, selectionStart = p, selectionEnd = p \<rparr> action
     = \<lparr> tvalue = take (nat p) t @ wrap_marker action @ wrap_placeholder action
                    @ wrap_marker action @ drop (nat p) t,
         selectionStart = p + 2 * int (length (wrap_marker action)),
         selectionEnd = p + int (length (wrap_marker action))
                          + int (length (wrap_placeholder action)) \<rparr>"
proof -
  note sel = selected_empty [OF assms(1,2)]
  note rs = replace_selection_empty [OF assms(1,2)]
  from assms(3) consider "action = ''bold''" | "action = ''italic''"
    | "action = ''strikethrough''" | "action = ''code''"
    by (auto simp add: wrap_actions_def)
  then show ?thesis
  proof cases
    case 1
    then show ?thesis using sel rs [of "''**''" "''bold text''" "''**''" 2]
      by (simp add: applyFormat_def Let_def or_else_def)
  next
    case 2
    then show ?thesis using sel rs [of "''*''" "''italic text''" "''*''" 1]
      by (simp add: applyFormat_def Let_def or_else_def)
  next
    case 3
    then show ?thesis using sel rs [of "''~~''" "''strikethrough''" "''~~''" 2]
      by (simp add: applyFormat_def Let_def or_else_def)
  next
    case 4
    then show ?thesis using sel rs [of "''`''" "''code''" "''`''" 1]
      by (simp add: applyFormat_def Let_def or_else_def)
  qed
qed

lemma wrap_wellFormed:
  assumes "wellFormed b" and "length m \<le> length ph"
  shows "wellFormed (replace_selection b m (or_else sel ph) aft
           (if sel \<noteq> [] then 0 else int (length m)))"
  using assms by (intro replace_selection_wellFormed) (auto simp add: or_else_def)

lemma applyFormat_wellFormed:
  assumes wf: "wellFormed b"
    and h3: "action = ''heading'' \<longrightarrow> startsWith (lineText_of b) ''### ''
               \<longrightarrow> 4 \<le> selectionStart b"
  shows "wellFormed (applyFormat b action)"
proof -
  let ?sel = "substring (tvalue b) (selectionStart b) (selectionEnd b)"
  have bold0: "wellFormed (replace_selection b ''**'' (or_else ?sel ''bold text'') ''**''
      (if ?sel \<noteq> [] then 0 else int (length ''**'')))"
    by (rule wrap_wellFormed [OF wf]) simp
  have italic0: "wellFormed (replace_selection b ''*'' (or_else ?sel ''italic text'') ''*''
      (if ?sel \<noteq> [] then 0 else int (length ''*'')))"
    by (rule wrap_wellFormed [OF wf]) simp
  have strike0: "wellFormed (replace_selection b ''~~'' (or_else ?sel ''strikethrough'') ''~~''
      (if ?sel \<noteq> [] then 0 else int (length ''~~'')))"
    by (rule wrap_wellFormed [OF wf]) simp
  have code0: "wellFormed (replace_selection b ''`'' (or_else ?sel ''code'') ''`''
      (if ?sel \<noteq> [] then 0 else int (length ''`'')))"
    by (rule wrap_wellFormed [OF wf]) simp
  have link1: "wellFormed (replace_selection b ''['' ?sel ''](url)'' 0)"
    by (rule replace_selection_wellFormed [OF wf]) simp_all
  have link2: "wellFormed (replace_selection b [] ''[link text](url)'' [] 1)"
    by (rule replace_selection_wellFormed [OF wf]) simp_all
  have lines: "\<And>bef ins. wellFormed (replace_selection b bef ins [] 0)"
    by (rule replace_selection_wellFormed [OF wf]) simp_all
  have head: "action = ''heading'' \<Longrightarrow> wellFormed (heading b)"
    using h3 by (intro heading_wellFormed [OF wf]) simp
  consider (bold) "action = ''bold''" | (italic) "action = ''italic''"
    | (strike) "action = ''strikethrough''" | (heading) "action = ''heading''"
    | (code) "action = ''code''" | (link) "action = ''link''" | (ul) "action = ''ul''"
    | (checklist) "action = ''checklist''" | (quote) "action = ''quote''"
    | (other) "action \<notin> set editor_actions"
    by (auto simp add: editor_actions_def)
  then show ?thesis
  proof cases
    case bold
    then show ?thesis using bold0 by (simp add: applyFormat_def Let_def)
  next
    case italic
    then show ?thesis using italic0 by (simp add: applyFormat_def Let_def)
  next
    case strike
    then show ?thesis using strike0 by (simp add: applyFormat_def Let_def)
  next
    case heading
    then show ?thesis using head by (simp add: applyFormat_heading)
  next
    case code
    then show ?thesis using code0 by (simp add: applyFormat_def Let_def)
  next
    case link
    then show ?thesis using link1 link2 by (simp add: applyFormat_def Let_def)
  next
    case ul
    then show ?thesis using lines by (simp add: applyFormat_def Let_def)
  next
    case checklist
    then show ?thesis using lines by (simp add: applyFormat_def Let_def)
  next
    case quote
    then show ?thesis using lines by (simp add: applyFormat_def Let_def)
  next
    case other
    then show ?thesis using wf by (simp add: applyFormat_def Let_def editor_actions_def)
  qed
qed

subsection \<open>Cursor placement on an empty selection\<close>

text \<open>
  Claim C1, evaluated at its own example. On the empty buffer with the cursor at \<open>0\<close>,
  \<open>link\<close> inserts \<open>[link text](url)\<close> and stores the selection \<open>(1, 16)\<close>: it starts after
  the opening bracket and runs to the end of the inserted text, where the claim has the
  collapsed cursor \<open>(1, 1)\<close>. The lemma \<open>applyFormat_link_empty\<close> gives \<open>(p + 1, p + 16)\<close>
  for every cursor position \<open>p\<close>.
\<close>

theorem applyFormat_link_empty_buffer:
  "applyFormat \<lparr> tvalue = [], selectionStart = 0, selectionEnd = 0 \<rparr> ''link''
     = \<lparr> tvalue = ''[link text](url)'', selectionStart = 1, selectionEnd = 16 \<rparr>"
  using applyFormat_link_empty [of 0 "[]"] by simp

text \<open>
  Claim C4, evaluated on the empty buffer. \<open>bold\<close> inserts \<open>**bold text**\<close> and stores the
  selection \<open>(4, 11)\<close>, which covers \<open>ld text\<close>: the selection ends where the placeholder
  ends, but starts two marker lengths after the cursor, where the claim has \<open>(2, 11)\<close>.
  The lemma \<open>applyFormat_wrap_empty\<close> gives the same shape for the four wrap operations
  at every cursor position.
\<close>

theorem applyFormat_bold_empty_buffer:
  "applyFormat \<lparr> tvalue = [], selectionStart = 0, selectionEnd = 0 \<rparr> ''bold''
     = \<lparr> tvalue = ''**bold text**'', selectionStart = 4, selectionEnd = 11 \<rparr>"
  using applyFormat_wrap_empty [of 0 "[]" "''bold''"] by (simp add: wrap_actions_def)

subsection \<open>The selection invariant\<close>

lemma to_unsigned_long_nonneg: "0 \<le> to_unsigned_long v"
  by (simp add: to_unsigned_long_def)

lemma to_unsigned_long_id:
  "0 \<le> v \<Longrightarrow> v < 4294967296 \<Longrightarrow> to_unsigned_long v = v"
  by (simp add: to_unsigned_long_def)

lemma set_selection_range_wellFormed:
  assumes "0 \<le> s" and "0 \<le> e"
  shows "wellFormed (set_selection_range ta s e)"
  using assms by (auto simp add: set_selection_range_def Let_def wellFormed_def min_def)

lemma set_selectionStart_wellFormed: "wellFormed (set_selectionStart ta v)"
  unfolding set_selectionStart_def Let_def
  using to_unsigned_long_nonneg [of v]
  by (intro set_selection_range_wellFormed) auto

lemma set_selectionEnd_wellFormed:
  assumes "0 \<le> selectionStart ta"
  shows "wellFormed (set_selectionEnd ta v)"
  unfolding set_selectionEnd_def
  using assms to_unsigned_long_nonneg [of v]
  by (intro set_selection_range_wellFormed)

lemma store_collapsed_wellFormed: "wellFormed (store_collapsed ta v c)"
  unfolding store_collapsed_def by (rule set_selectionStart_wellFormed)

lemma store_selection_wellFormed: "wellFormed (store_selection ta v s e)"
proof -
  have "wellFormed (set_selectionStart (set_value ta v) s)"
    by (rule set_selectionStart_wellFormed)
  then have "0 \<le> selectionStart (set_selectionStart (set_value ta v) s)"
    by (simp add: wellFormed_def)
  then show ?thesis
    unfolding store_selection_def by (rule set_selectionEnd_wellFormed)
qed

text \<open>
  Assigned values that are in range are what the textarea then holds, so every statement
  about in-range values of \<open>applyFormat\<close> is one about the textarea.
\<close>

lemma tvalue_set_value: "tvalue (set_value ta v) = v"
  by (simp add: set_value_def)

lemma store_selection_in_range:
  assumes "0 \<le> s" and "s \<le> e" and "e \<le> int (length v)"
    and "int (length v) < 4294967296"
  shows "store_selection ta v s e = \<lparr> tvalue = v, selectionStart = s, selectionEnd = e \<rparr>"
proof -
  let ?t = "set_value ta v"
  have us: "to_unsigned_long s = s" and ue: "to_unsigned_long e = e"
    using assms by (simp_all add: to_unsigned_long_id)
  have tv: "tvalue ?t = v" by (rule tvalue_set_value)
  have st: "set_selectionStart ?t s =
      ?t \<lparr> selectionStart := s, selectionEnd := min (max (selectionEnd ?t) s) (int (length v)) \<rparr>"
    using assms tv
    by (auto simp add: set_selectionStart_def set_selection_range_def Let_def us min_def max_def)
  show ?thesis
    unfolding store_selection_def st
    using assms tv
    by (cases ?t) (auto simp add: set_selectionEnd_def set_selection_range_def Let_def ue min_def max_def)
qed

lemma store_collapsed_in_range:
  assumes "0 \<le> c" and "c \<le> int (length v)" and "int (length v) < 4294967296"
  shows "store_collapsed ta v c = \<lparr> tvalue = v, selectionStart = c, selectionEnd = c \<rparr>"
proof -
  let ?t = "set_value ta v"
  have uc: "to_unsigned_long c = c"
    using assms by (simp add: to_unsigned_long_id)
  have tv: "tvalue ?t = v" by (rule tvalue_set_value)
  have en: "set_selectionEnd ?t c =
      ?t \<lparr> selectionStart := min (selectionStart ?t) c, selectionEnd := c \<rparr>"
    using assms tv
    by (auto simp add: set_selectionEnd_def set_selection_range_def Let_def uc min_def)
  show ?thesis
    unfolding store_collapsed_def en
    using assms tv
    by (cases ?t) (auto simp add: set_selectionStart_def set_selection_range_def Let_def uc min_def)
qed

lemma heading_collapsed: "selectionEnd (heading b) = selectionStart (heading b)"
  by (simp add: heading_unfold)

lemma applyFormat_textarea_in_range:
  assumes "wellFormed (applyFormat b action)"
    and "int (length (tvalue (applyFormat b action))) < 4294967296"
  shows "applyFormat_textarea b action = applyFormat b action"
proof -
  let ?r = "applyFormat b action"
  from assms(1) have r: "0 \<le> selectionStart ?r" "selectionStart ?r \<le> selectionEnd ?r"
    "selectionEnd ?r \<le> int (length (tvalue ?r))"
    by (simp_all add: wellFormed_def)
  show ?thesis
  proof (cases "action = ''heading''")
    case True
    then have h: "?r = heading b" by (simp add: applyFormat_heading)
    have "store_collapsed b (tvalue ?r) (selectionStart ?r)
        = \<lparr> tvalue = tvalue ?r, selectionStart = selectionStart ?r,
            selectionEnd = selectionStart ?r \<rparr>"
      using r assms(2) by (intro store_collapsed_in_range) simp_all
    also have "\<dots> = ?r"
      using heading_collapsed [of b] h by simp
    finally show ?thesis
      using True h by (simp add: applyFormat_textarea_def Let_def)
  next
    case False
    show ?thesis
    proof (cases "action \<in> set editor_actions")
      case True
      have "store_selection b (tvalue ?r) (selectionStart ?r) (selectionEnd ?r)
          = \<lparr> tvalue = tvalue ?r, selectionStart = selectionStart ?r,
              selectionEnd = selectionEnd ?r \<rparr>"
        using r assms(2) by (intro store_selection_in_range)
      then show ?thesis
        using True False by (simp add: applyFormat_textarea_def Let_def)
    next
      case nin: False
      then have "?r = b"
        by (simp add: applyFormat_def Let_def editor_actions_def)
      with nin False show ?thesis
        by (simp add: applyFormat_textarea_def)
    qed
  qed
qed

text \<open>
  The one assignment out of range: with the whole line \<open>### abc\<close> selected, the heading
  case assigns \<open>start - 4 = -4\<close> to both selection properties (by \<open>applyFormat_wellFormed\<close>
  every other case assigns values in range). The textarea takes \<open>-4\<close> modulo \<open>2^32\<close> and
  limits it to the length of the text.
\<close>

lemma applyFormat_heading_h3_values:
  "applyFormat \<lparr> tvalue = ''### abc'', selectionStart = 0, selectionEnd = 7 \<rparr> ''heading''
     = \<lparr> tvalue = ''abc'', selectionStart = - 4, selectionEnd = - 4 \<rparr>"
proof -
  have "heading (line_buffer [] [] ''### abc'' []) = cursor_at (''abc'' @ []) (0 + 0 - 4)"
    using heading_h3 [of "[]" "[]" "''### abc''" "[]" "''abc''"]
    by (simp add: line_start_ok_def startsWith_def)
  then have "heading \<lparr> tvalue = ''### abc'', selectionStart = 0, selectionEnd = 7 \<rparr>
     = \<lparr> tvalue = ''abc'', selectionStart = - 4, selectionEnd = - 4 \<rparr>"
    by (simp add: line_buffer_def cursor_at_def)
  then show ?thesis
    by (simp add: applyFormat_heading)
qed

text \<open>
  Claim C3. For every operation of the editor (and every other action string) and every
  well-formed buffer, the buffer that the textarea holds after \<open>applyFormat\<close> satisfies
  \<open>0 \<le> selectionStart \<le> selectionEnd \<le> length\<close> again.
\<close>

theorem applyFormat_textarea_wellFormed:
  "wellFormed b \<Longrightarrow> wellFormed (applyFormat_textarea b action)"
  by (simp add: applyFormat_textarea_def Let_def store_collapsed_wellFormed
      store_selection_wellFormed)

theorem applyFormat_textarea_wellFormed_witness:
  "wellFormed \<lparr> tvalue = ''### abc'', selectionStart = 0, selectionEnd = 7 \<rparr>
   \<and> applyFormat_textarea
         \<lparr> tvalue = ''### abc'', selectionStart = 0, selectionEnd = 7 \<rparr> ''heading''
       = \<lparr> tvalue = ''abc'', selectionStart = 3, selectionEnd = 3 \<rparr>
   \<and> wellFormed (applyFormat_textarea
         \<lparr> tvalue = ''### abc'', selectionStart = 0, selectionEnd = 7 \<rparr> ''heading'')"
proof -
  let ?b = "\<lparr> tvalue = ''### abc'', selectionStart = 0, selectionEnd = 7 \<rparr>"
  have wf: "wellFormed ?b" by (simp add: wellFormed_def)
  have h: "heading ?b = \<lparr> tvalue = ''abc'', selectionStart = - 4, selectionEnd = - 4 \<rparr>"
    using applyFormat_heading_h3_values by (simp add: applyFormat_heading)
  have v: "applyFormat_textarea ?b ''heading''
      = \<lparr> tvalue = ''abc'', selectionStart = 3, selectionEnd = 3 \<rparr>"
    by (simp add: applyFormat_textarea_def h store_collapsed_def set_value_def
        set_selectionEnd_def set_selectionStart_def set_selection_range_def
        to_unsigned_long_def Let_def)
  from wf v applyFormat_textarea_wellFormed [OF wf, of "''heading''"]
  show ?thesis by simp
qed

subsection \<open>The heading cycle\<close>

text \<open>
  Claim C5, as amended. The line text is the text between the start of the line and the
  selection end. \<open>heading\<close> rewrites its prefix as: none to \<open>## \<close>, \<open># \<close> to \<open>## \<close>,
  \<open>## \<close> to \<open>### \<close>, \<open>### \<close> to none, and stores a collapsed cursor at the selection
  start moved by the change of length (the selection does not start at position \<open>0\<close> of
  a buffer that begins with a line break). The states none, \<open>## \<close> and \<open>### \<close> form a cycle
  of length three: with the cursor behind the prefix, on a line whose text after the
  prefix does not itself start with a heading prefix, three applications give back the
  buffer, text and cursor.
\<close>

theorem heading_cycle:
  assumes a: "line_start_ok a"
  shows
    "(newline \<notin> set l1 \<and> (a = [] \<and> l1 = [] \<longrightarrow> \<not> startsWith (l2 @ b) [newline]) \<longrightarrow>
        (no_heading_prefix (l1 @ l2) \<longrightarrow>
           applyFormat (line_buffer a l1 l2 b) ''heading''
             = cursor_at (a @ ''## '' @ l1 @ l2 @ b) (int (length a) + int (length l1) + 3))
      \<and> (l1 @ l2 = ''# '' @ rest \<longrightarrow>
           applyFormat (line_buffer a l1 l2 b) ''heading''
             = cursor_at (a @ ''## '' @ rest @ b) (int (length a) + int (length l1) + 1))
      \<and> (l1 @ l2 = ''## '' @ rest \<longrightarrow>
           applyFormat (line_buffer a l1 l2 b) ''heading''
             = cursor_at (a @ ''### '' @ rest @ b) (int (length a) + int (length l1) + 1))
      \<and> (l1 @ l2 = ''### '' @ rest \<longrightarrow>
           applyFormat (line_buffer a l1 l2 b) ''heading''
             = cursor_at (a @ rest @ b) (int (length a) + int (length l1) - 4)))
     \<and> (newline \<notin> set r \<and> no_heading_prefix r
          \<and> (a = [] \<and> r = [] \<longrightarrow> \<not> startsWith c [newline]) \<longrightarrow>
        (\<forall>p \<in> {[], ''## '', ''### ''}.
            applyFormat (applyFormat (applyFormat (line_buffer a (p @ r) [] c) ''heading'')
              ''heading'') ''heading''
            = line_buffer a (p @ r) [] c))"
proof (intro conjI impI)
  assume h: "newline \<notin> set l1 \<and> (a = [] \<and> l1 = [] \<longrightarrow> \<not> startsWith (l2 @ b) [newline])"
  then have nl: "newline \<notin> set l1"
    and e: "a = [] \<and> l1 = [] \<longrightarrow> \<not> startsWith (l2 @ b) [newline]"
    by blast+
  show "applyFormat (line_buffer a l1 l2 b) ''heading''
      = cursor_at (a @ ''## '' @ l1 @ l2 @ b) (int (length a) + int (length l1) + 3)"
    if "no_heading_prefix (l1 @ l2)"
    using heading_none [OF nl a e that] by (simp add: applyFormat_heading)
  show "applyFormat (line_buffer a l1 l2 b) ''heading''
      = cursor_at (a @ ''## '' @ rest @ b) (int (length a) + int (length l1) + 1)"
    if "l1 @ l2 = ''# '' @ rest"
    using heading_h1 [OF nl a e that] by (simp add: applyFormat_heading)
  show "applyFormat (line_buffer a l1 l2 b) ''heading''
      = cursor_at (a @ ''### '' @ rest @ b) (int (length a) + int (length l1) + 1)"
    if "l1 @ l2 = ''## '' @ rest"
    using heading_h2 [OF nl a e that] by (simp add: applyFormat_heading)
  show "applyFormat (line_buffer a l1 l2 b) ''heading''
      = cursor_at (a @ rest @ b) (int (length a) + int (length l1) - 4)"
    if "l1 @ l2 = ''### '' @ rest"
    using heading_h3 [OF nl a e that] by (simp add: applyFormat_heading)
next
  assume h: "newline \<notin> set r \<and> no_heading_prefix r
      \<and> (a = [] \<and> r = [] \<longrightarrow> \<not> startsWith c [newline])"
  then have nl: "newline \<notin> set r" and nh: "no_heading_prefix r"
    and e: "a = [] \<and> r = [] \<longrightarrow> \<not> startsWith c [newline]"
    by blast+
  note s0 = heading_step_none [OF nl a e nh]
  note s2 = heading_step_h2 [OF nl a, of c]
  note s3 = heading_step_h3 [OF nl a, of c]
  show "\<forall>p \<in> {[], ''## '', ''### ''}.
      applyFormat (applyFormat (applyFormat (line_buffer a (p @ r) [] c) ''heading'')
        ''heading'') ''heading''
      = line_buffer a (p @ r) [] c"
  proof
    fix p :: string
    assume "p \<in> {[], ''## '', ''### ''}"
    then consider "p = []" | "p = ''## ''" | "p = ''### ''" by blast
    then show "applyFormat (applyFormat (applyFormat (line_buffer a (p @ r) [] c) ''heading'')
        ''heading'') ''heading''
      = line_buffer a (p @ r) [] c"
    proof cases
      case 1
      then show ?thesis by (simp only: applyFormat_heading append_Nil s0 s2 s3)
    next
      case 2
      then show ?thesis by (simp only: applyFormat_heading s0 s2 s3)
    next
      case 3
      then show ?thesis by (simp only: applyFormat_heading s0 s2 s3)
    qed
  qed
qed

theorem heading_cycle_witness:
  "line_start_ok [] \<and> newline \<notin> set ''## abc'' \<and> \<not> (([]::string) = [] \<and> ''## abc'' = [])
   \<and> ''## abc'' @ [] = ''## '' @ ''abc''
   \<and> applyFormat \<lparr> tvalue = ''## abc'', selectionStart = 6, selectionEnd = 6 \<rparr> ''heading''
       = \<lparr> tvalue = ''### abc'', selectionStart = 7, selectionEnd = 7 \<rparr>
   \<and> newline \<notin> set ''abc'' \<and> no_heading_prefix ''abc''
   \<and> ''## '' \<in> {[], ''## '', ''### ''}
   \<and> applyFormat (applyFormat (applyFormat
         \<lparr> tvalue = ''## abc'', selectionStart = 6, selectionEnd = 6 \<rparr> ''heading'')
           ''heading'') ''heading''
       = \<lparr> tvalue = ''## abc'', selectionStart = 6, selectionEnd = 6 \<rparr>"
proof -
  have h: "line_start_ok []" "newline \<notin> set ''## abc''" "newline \<notin> set ''abc''"
    "no_heading_prefix ''abc''"
    by (simp_all add: line_start_ok_def no_heading_prefix_def startsWith_def)
  note hc = heading_cycle [OF h(1), of "''## abc''" "[]" "[]" "''abc''" "''abc''" "[]"]
  have t: "applyFormat \<lparr> tvalue = ''## abc'', selectionStart = 6, selectionEnd = 6 \<rparr> ''heading''
       = \<lparr> tvalue = ''### abc'', selectionStart = 7, selectionEnd = 7 \<rparr>"
    using hc [THEN conjunct1] h by (simp add: line_buffer_def cursor_at_def)
  have c: "applyFormat (applyFormat (applyFormat
         \<lparr> tvalue = ''## abc'', selectionStart = 6, selectionEnd = 6 \<rparr> ''heading'')
           ''heading'') ''heading''
       = \<lparr> tvalue = ''## abc'', selectionStart = 6, selectionEnd = 6 \<rparr>"
    using hc [THEN conjunct2] h by (simp add: line_buffer_def)
  show ?thesis
    by (intro conjI; (fact h t c | simp))
qed

text \<open>Four applications to the line \<open>abc\<close> leave \<open>## abc\<close>, not the original line.\<close>

theorem heading_four_times_counterexample:
  "tvalue (applyFormat (applyFormat (applyFormat (applyFormat
      \<lparr> tvalue = ''abc'', selectionStart = 3, selectionEnd = 3 \<rparr>
        ''heading'') ''heading'') ''heading'') ''heading'') = ''## abc''
   \<and> tvalue (applyFormat (applyFormat (applyFormat (applyFormat
      \<lparr> tvalue = ''abc'', selectionStart = 3, selectionEnd = 3 \<rparr>
        ''heading'') ''heading'') ''heading'') ''heading'')
     \<noteq> tvalue \<lparr> tvalue = ''abc'', selectionStart = 3, selectionEnd = 3 \<rparr>"
proof -
  have a: "line_start_ok []" and r: "newline \<notin> set ''abc''"
    and n: "no_heading_prefix ''abc''"
    by (simp_all add: line_start_ok_def no_heading_prefix_def startsWith_def)
  have b0: "\<lparr> tvalue = ''abc'', selectionStart = 3, selectionEnd = 3 \<rparr>
      = line_buffer [] ''abc'' [] []"
    by (simp add: line_buffer_def)
  have s0: "heading (line_buffer [] ''abc'' [] []) = line_buffer [] (''## '' @ ''abc'') [] []"
    using heading_step_none [OF r a _ n, of "[]"] by simp
  note s2 = heading_step_h2 [OF r a, of "[]"]
  note s3 = heading_step_h3 [OF r a, of "[]"]
  have "applyFormat (applyFormat (applyFormat (applyFormat
      (line_buffer [] ''abc'' [] []) ''heading'') ''heading'') ''heading'') ''heading''
      = line_buffer [] (''## '' @ ''abc'') [] []"
    by (simp only: applyFormat_heading s0 s2 s3)
  then show ?thesis
    unfolding b0 by (simp add: line_buffer_def)
qed

section \<open>Properties of the RepoRefParser\<close>

lemma remove_git_suffix_append: "remove_git_suffix (q @ ''.git'') = q"
  by (simp add: remove_git_suffix_def endsWith_def)

text \<open>
  Claim C8. If the URL constructor throws, or fewer than two segments remain after
  stripping a trailing \<open>.git\<close> from the path, splitting on \<open>/\<close> and discarding the empty
  segments, \<open>parseGitHubUrl\<close> returns \<open>null\<close>; if at least two remain, it returns the first
  two as owner and repository and ignores the rest. The function is total: the exception
  of the constructor is the only one, and it is caught. The last two conjuncts say what
  the segments are: a trailing \<open>.git\<close> is removed once, and nothing else is.
\<close>

theorem parseGitHubUrl_contract:
  "(newURL url = None \<longrightarrow> parseGitHubUrl newURL url = None)
   \<and> (newURL url = Some u \<and> length (path_segments (pathname u)) < 2
        \<longrightarrow> parseGitHubUrl newURL url = None)
   \<and> (newURL url = Some u \<and> path_segments (pathname u) = own # rep # extra
        \<longrightarrow> parseGitHubUrl newURL url = Some \<lparr> owner = own, repo = rep \<rparr>)
   \<and> path_segments (q @ ''.git'') = filter (\<lambda>s. s \<noteq> []) (split_str (CHR ''/'') q)
   \<and> (\<not> endsWith p ''.git''
        \<longrightarrow> path_segments p = filter (\<lambda>s. s \<noteq> []) (split_str (CHR ''/'') p))"
  by (simp add: parseGitHubUrl_def path_segments_def Let_def remove_git_suffix_append)
     (simp add: remove_git_suffix_def)

theorem parseGitHubUrl_contract_witness:
  "sample_newURL ''not a url'' = None
   \<and> parseGitHubUrl sample_newURL ''not a url'' = None
   \<and> length (path_segments ''/owner'') < 2
   \<and> parseGitHubUrl sample_newURL ''https://github.com/owner'' = None
   \<and> path_segments ''/owner/repo.git'' = [''owner'', ''repo'']
   \<and> parseGitHubUrl sample_newURL ''https://github.com/owner/repo.git''
       = Some \<lparr> owner = ''owner'', repo = ''repo'' \<rparr>
   \<and> path_segments ''/group/project/-/tree/main''
       = [''group'', ''project'', ''-'', ''tree'', ''main'']
   \<and> parseGitHubUrl sample_newURL ''https://gitlab.com/group/project/-/tree/main''
       = Some \<lparr> owner = ''group'', repo = ''project'' \<rparr>"
proof -
  have s1: "path_segments ''/owner'' = [''owner'']"
    by (simp add: path_segments_def remove_git_suffix_def endsWith_def)
  have s2: "path_segments ''/owner/repo.git'' = [''owner'', ''repo'']"
    by (simp add: path_segments_def remove_git_suffix_def endsWith_def)
  have s3: "path_segments ''/group/project/-/tree/main''
      = [''group'', ''project'', ''-'', ''tree'', ''main'']"
    by (simp add: path_segments_def remove_git_suffix_def endsWith_def)
  have n: "sample_newURL ''not a url'' = None"
    and u1: "sample_newURL ''https://github.com/owner''
      = Some \<lparr> protocol = ''https:'', host = ''github.com'', pathname = ''/owner'' \<rparr>"
    and u2: "sample_newURL ''https://github.com/owner/repo.git''
      = Some \<lparr> protocol = ''https:'', host = ''github.com'', pathname = ''/owner/repo.git'' \<rparr>"
    and u3: "sample_newURL ''https://gitlab.com/group/project/-/tree/main''
      = Some \<lparr> protocol = ''https:'', host = ''gitlab.com'',
               pathname = ''/group/project/-/tree/main'' \<rparr>"
    by (simp_all add: sample_newURL_def)
  from parseGitHubUrl_contract [of sample_newURL "''not a url''"] n
  have r0: "parseGitHubUrl sample_newURL ''not a url'' = None" by simp
  from parseGitHubUrl_contract [of sample_newURL "''https://github.com/owner''"
      "\<lparr> protocol = ''https:'', host = ''github.com'', pathname = ''/owner'' \<rparr>"] u1 s1
  have r1: "parseGitHubUrl sample_newURL ''https://github.com/owner'' = None" by simp
  from parseGitHubUrl_contract [of sample_newURL "''https://github.com/owner/repo.git''"
      "\<lparr> protocol = ''https:'', host = ''github.com'', pathname = ''/owner/repo.git'' \<rparr>"
      "''owner''" "''repo''" "[]"] u2 s2
  have r2: "parseGitHubUrl sample_newURL ''https://github.com/owner/repo.git''
       = Some \<lparr> owner = ''owner'', repo = ''repo'' \<rparr>" by simp
  from parseGitHubUrl_contract [of sample_newURL
      "''https://gitlab.com/group/project/-/tree/main''"
      "\<lparr> protocol = ''https:'', host = ''gitlab.com'',
         pathname = ''/group/project/-/tree/main'' \<rparr>"
      "''group''" "''project''" "[''-'', ''tree'', ''main'']"] u3 s3
  have r3: "parseGitHubUrl sample_newURL ''https://gitlab.com/group/project/-/tree/main''
       = Some \<lparr> owner = ''group'', repo = ''project'' \<rparr>" by simp
  from n s1 s2 s3 r0 r1 r2 r3 show ?thesis by simp
qed

text \<open>
  Claim C9. No host or scheme is validated: a parsed URL whose path has at least two
  segments yields the owner and repository whatever its host, and replacing scheme and
  host of the parsed URL by any others does not change the result.
\<close>

theorem parseGitHubUrl_no_host_validation:
  "(newURL url = Some u \<and> 2 \<le> length (path_segments (pathname u)) \<longrightarrow>
      parseGitHubUrl newURL url
        = Some \<lparr> owner = path_segments (pathname u) ! 0,
                 repo = path_segments (pathname u) ! 1 \<rparr>)
   \<and> parseGitHubUrl (\<lambda>x. map_option (\<lambda>v. v \<lparr> protocol := sch, host := h \<rparr>) (newURL x)) url
       = parseGitHubUrl newURL url"
  by (cases "newURL url") (simp_all add: parseGitHubUrl_def path_segments_def Let_def)

theorem parseGitHubUrl_no_host_validation_witness:
  "sample_newURL ''https://gitlab.com/group/project/-/tree/main''
     = Some \<lparr> protocol = ''https:'', host = ''gitlab.com'',
              pathname = ''/group/project/-/tree/main'' \<rparr>
   \<and> 2 \<le> length (path_segments ''/group/project/-/tree/main'')
   \<and> parseGitHubUrl sample_newURL ''https://gitlab.com/group/project/-/tree/main''
       = Some \<lparr> owner = ''group'', repo = ''project'' \<rparr>"
proof -
  have s3: "path_segments ''/group/project/-/tree/main''
      = [''group'', ''project'', ''-'', ''tree'', ''main'']"
    by (simp add: path_segments_def remove_git_suffix_def endsWith_def)
  have u3: "sample_newURL ''https://gitlab.com/group/project/-/tree/main''
      = Some \<lparr> protocol = ''https:'', host = ''gitlab.com'',
               pathname = ''/group/project/-/tree/main'' \<rparr>"
    by (simp add: sample_newURL_def)
  from parseGitHubUrl_no_host_validation [of sample_newURL
      "''https://gitlab.com/group/project/-/tree/main''"
      "\<lparr> protocol = ''https:'', host = ''gitlab.com'',
         pathname = ''/group/project/-/tree/main'' \<rparr>"] u3 s3
  show ?thesis by simp
qed

section \<open>Properties of the ContextAggregator\<close>

lemma issues_step_Inr:
  assumes "issues_step issuesRes = Inr s"
  shows "(\<exists>r m. issuesRes = Rejected r \<and> s = ''Error fetching issues: '' @ m)
     \<or> (\<exists>d. issuesRes = Fulfilled d \<and> summarizeIssues d = Inr s)"
  using assms by (cases issuesRes) (auto simp add: issues_step_def split: sum.splits)

lemma tree_step_Inr:
  assumes "tree_step treeRes fallbackRes = Inr c"
  shows "c = tree_unavailable
     \<or> (\<exists>d. (treeRes = Fulfilled d
                \<or> ((\<exists>r. treeRes = Rejected r) \<and> fallbackRes = Fulfilled d))
           \<and> summarizeTree d = Inr c)"
  using assms
  by (cases treeRes; cases fallbackRes) (auto simp add: tree_step_def split: sum.splits)

text \<open>
  Claim C6. For every combination of outcomes of the two requests and of the request for
  the second branch, the aggregation step ends without an exception and with both
  summaries set: the issue summary is the summary of the fetched issues, the line
  \<open>Error fetching issues: \<close> followed by the message of the rejection, or the initial
  placeholder; the tree summary is the summary of a fetched tree or one of the two
  placeholders. When all requests are rejected, the bundle holds the error line and the
  tree placeholder.
\<close>

theorem aggregate_always_bundle:
  "(\<exists>b. aggregate issuesRes treeRes fallbackRes = Inr b
      \<and> (issuesSummary b = issues_default
          \<or> (\<exists>r m. issuesRes = Rejected r
                \<and> issuesSummary b = ''Error fetching issues: '' @ m)
          \<or> (\<exists>d. issuesRes = Fulfilled d \<and> summarizeIssues d = Inr (issuesSummary b)))
      \<and> (treeSummary b = tree_default
          \<or> treeSummary b = tree_unavailable
          \<or> (\<exists>d. (treeRes = Fulfilled d
                     \<or> ((\<exists>r. treeRes = Rejected r) \<and> fallbackRes = Fulfilled d))
                \<and> summarizeTree d = Inr (treeSummary b))))
   \<and> aggregate (Rejected (JObj [(''message'', JStr msg)])) (Rejected r1) (Rejected r2)
       = Inr \<lparr> issuesSummary = ''Error fetching issues: '' @ msg,
               treeSummary = tree_unavailable \<rparr>"
proof
  show "\<exists>b. aggregate issuesRes treeRes fallbackRes = Inr b
      \<and> (issuesSummary b = issues_default
          \<or> (\<exists>r m. issuesRes = Rejected r
                \<and> issuesSummary b = ''Error fetching issues: '' @ m)
          \<or> (\<exists>d. issuesRes = Fulfilled d \<and> summarizeIssues d = Inr (issuesSummary b)))
      \<and> (treeSummary b = tree_default
          \<or> treeSummary b = tree_unavailable
          \<or> (\<exists>d. (treeRes = Fulfilled d
                     \<or> ((\<exists>r. treeRes = Rejected r) \<and> fallbackRes = Fulfilled d))
                \<and> summarizeTree d = Inr (treeSummary b)))"
  proof (cases "issues_step issuesRes")
    case (Inl e)
    then show ?thesis by (simp add: aggregate_def)
  next
    case (Inr s)
    from issues_step_Inr [OF Inr]
    have i: "(\<exists>r m. issuesRes = Rejected r \<and> s = ''Error fetching issues: '' @ m)
        \<or> (\<exists>d. issuesRes = Fulfilled d \<and> summarizeIssues d = Inr s)"
      .
    show ?thesis
    proof (cases "tree_step treeRes fallbackRes")
      case (Inl e)
      with Inr i show ?thesis by (simp add: aggregate_def)
    next
      case t: (Inr c)
      from tree_step_Inr [OF t]
      have "c = tree_unavailable
        \<or> (\<exists>d. (treeRes = Fulfilled d
                   \<or> ((\<exists>r. treeRes = Rejected r) \<and> fallbackRes = Fulfilled d))
              \<and> summarizeTree d = Inr c)"
        .
      with Inr t i show ?thesis by (simp add: aggregate_def)
    qed
  qed
  show "aggregate (Rejected (JObj [(''message'', JStr msg)])) (Rejected r1) (Rejected r2)
       = Inr \<lparr> issuesSummary = ''Error fetching issues: '' @ msg,
               treeSummary = tree_unavailable \<rparr>"
    by (simp add: aggregate_def issues_step_def tree_step_def)
qed

text \<open>
  Claim C7, evaluated at its own example. The issue request succeeds with one issue that
  has no \<open>created_at\<close>, the tree request succeeds with one file. Reading
  \<open>created_at.split\<close> throws inside the \<open>map\<close> callback, the outer \<open>catch\<close> takes over, and
  the tree is never summarized: both summaries keep their initial placeholders, although
  the tree alone summarizes to \<open>README.md\<close>. A rejected issue request, by contrast,
  leaves the tree summary intact.
\<close>

theorem aggregate_issue_without_created_at:
  "aggregate
     (Fulfilled (JArr [JObj [(''number'', JNum 7), (''state'', JStr ''open''),
        (''title'', JStr ''Crash on start''), (''body'', JStr ''It crashes'')]]))
     (Fulfilled (JObj [(''tree'', JArr [JObj [(''path'', JStr ''README.md''),
        (''type'', JStr ''blob'')]])]))
     fallbackRes
     = Inr \<lparr> issuesSummary = issues_default, treeSummary = tree_default \<rparr>
   \<and> summarizeTree (JObj [(''tree'', JArr [JObj [(''path'', JStr ''README.md''),
        (''type'', JStr ''blob'')]])]) = Inr ''README.md''
   \<and> aggregate
     (Rejected (JObj [(''message'', JStr ''timeout'')]))
     (Fulfilled (JObj [(''tree'', JArr [JObj [(''path'', JStr ''README.md''),
        (''type'', JStr ''blob'')]])]))
     fallbackRes
     = Inr \<lparr> issuesSummary = ''Error fetching issues: timeout'', treeSummary = ''README.md'' \<rparr>"
proof -
  have i: "issue_line (JObj [(''number'', JNum 7), (''state'', JStr ''open''),
        (''title'', JStr ''Crash on start''), (''body'', JStr ''It crashes'')]) = Inl TypeError"
    by (simp add: issue_line_def created_date_def)
  have t: "summarizeTree (JObj [(''tree'', JArr [JObj [(''path'', JStr ''README.md''),
        (''type'', JStr ''blob'')]])]) = Inr ''README.md''"
    by (simp add: summarizeTree_def is_blob_def join_elem_def)
  show ?thesis
    using i t by (simp add: aggregate_def issues_step_def tree_step_def summarizeIssues_def)
qed

end
